theory Spec2Isabelle
  imports Complex_Main
begin

section \<open>Label placement of TextBatch (core/src/style/textBatch.cpp)\<close>

text \<open>
  The embedding follows \<^verbatim>\<open>TextBatch\<close> function by function. Coordinates are C++
  \<^verbatim>\<open>float\<close>s; they are IEEE 754 binary32 numbers, and every sum, difference, product,
  quotient and square root is rounded as the format says.
  Integers keep their C++ widths on an LP64 platform: \<^verbatim>\<open>int\<close> has 32 bits,
  \<^verbatim>\<open>size_t\<close> has 64 bits, and every conversion between the two is written out.
  What C++ leaves undefined (reading a vector out of range, dividing by zero,
  overflowing a signed counter) ends the modelled run with a \<open>Fault\<close>.
  \<^verbatim>\<open>draw\<close> and \<^verbatim>\<open>update\<close> only hand their arguments on to the shader, the mesh and
  the labels; they are not embedded.
\<close>

subsection \<open>Floating point\<close>

text \<open>
  A C++ \<^verbatim>\<open>float\<close> is an IEEE 754 binary32 number: a significand of 24 bits, exponents
  from \<open>-126\<close> to \<open>127\<close>, subnormal numbers below, the two infinities and NaN. A finite
  \<^verbatim>\<open>float\<close> is the real number it stands for; the operations below yield binary32
  numbers only. The two zeros are the one value \<open>Finite 0\<close>: in this program the sign
  of a zero could only show in a division by zero, and the one divisor is a converted
  vertex count.
\<close>

datatype float = Finite real | PlusInf | MinusInf | NaN

text \<open>Rounding to the nearest integer, a tie to the even one.\<close>

definition round_even :: "real \<Rightarrow> int" where
  "round_even r =
     (let f = \<lfloor>r\<rfloor>; d = r - of_int f
      in if d < 1 / 2 then f else if 1 / 2 < d then f + 1 else if even f then f else f + 1)"

text \<open>
  Rounding a real number to binary32, to nearest and ties to even: the exponent of
  \<open>r\<close> is that of its binade, not below \<open>-126\<close>; the significand is rounded to a
  multiple of the unit in the last place, \<open>2\<close> to the exponent less \<open>23\<close>. A result of
  \<open>2^128\<close> or more in size has overflowed to an infinity.
\<close>

definition exponent32 :: "real \<Rightarrow> int" where
  "exponent32 r = max \<lfloor>log 2 \<bar>r\<bar>\<rfloor> (- 126)"

definition round32r :: "real \<Rightarrow> real" where
  "round32r r =
     (if r = 0 then 0
      else (let q = 2 powi (exponent32 r - 23)
            in real_of_int (round_even (r / q)) * q))"

definition round32 :: "real \<Rightarrow> float" where
  "round32 r =
     (let v = round32r r
      in if 2 ^ 128 \<le> \<bar>v\<bar> then (if 0 < v then PlusInf else MinusInf) else Finite v)"

text \<open>
  The operations the batch uses, each rounded on its own (no fused multiply-add, no
  excess precision): negation, \<^verbatim>\<open>+\<close>, \<^verbatim>\<open>-\<close>, \<^verbatim>\<open>*\<close>, \<^verbatim>\<open>/\<close>, \<^verbatim>\<open>sqrt\<close>, \<^verbatim>\<open><\<close> and the
  conversion of an \<^verbatim>\<open>int\<close>. A zero divisor is read as \<open>+0\<close>.
\<close>

fun fneg :: "float \<Rightarrow> float" where
  "fneg (Finite a) = Finite (- a)"
| "fneg PlusInf = MinusInf"
| "fneg MinusInf = PlusInf"
| "fneg NaN = NaN"

fun fadd :: "float \<Rightarrow> float \<Rightarrow> float" where
  "fadd (Finite a) (Finite b) = round32 (a + b)"
| "fadd NaN b = NaN"
| "fadd a NaN = NaN"
| "fadd PlusInf MinusInf = NaN"
| "fadd MinusInf PlusInf = NaN"
| "fadd PlusInf b = PlusInf"
| "fadd a PlusInf = PlusInf"
| "fadd MinusInf b = MinusInf"
| "fadd a MinusInf = MinusInf"

definition fsub :: "float \<Rightarrow> float \<Rightarrow> float" where
  "fsub a b = fadd a (fneg b)"

fun fmul :: "float \<Rightarrow> float \<Rightarrow> float" where
  "fmul (Finite a) (Finite b) = round32 (a * b)"
| "fmul NaN b = NaN"
| "fmul a NaN = NaN"
| "fmul (Finite a) PlusInf = (if a = 0 then NaN else if 0 < a then PlusInf else MinusInf)"
| "fmul (Finite a) MinusInf = (if a = 0 then NaN else if 0 < a then MinusInf else PlusInf)"
| "fmul PlusInf (Finite b) = (if b = 0 then NaN else if 0 < b then PlusInf else MinusInf)"
| "fmul MinusInf (Finite b) = (if b = 0 then NaN else if 0 < b then MinusInf else PlusInf)"
| "fmul PlusInf PlusInf = PlusInf"
| "fmul MinusInf MinusInf = PlusInf"
| "fmul PlusInf MinusInf = MinusInf"
| "fmul MinusInf PlusInf = MinusInf"

fun fdiv :: "float \<Rightarrow> float \<Rightarrow> float" where
  "fdiv (Finite a) (Finite b) =
     (if b = 0 then (if a = 0 then NaN else if 0 < a then PlusInf else MinusInf)
      else round32 (a / b))"
| "fdiv NaN b = NaN"
| "fdiv a NaN = NaN"
| "fdiv (Finite a) b = Finite 0"
| "fdiv PlusInf (Finite b) = (if 0 \<le> b then PlusInf else MinusInf)"
| "fdiv MinusInf (Finite b) = (if 0 \<le> b then MinusInf else PlusInf)"
| "fdiv a b = NaN"

fun fsqrt :: "float \<Rightarrow> float" where
  "fsqrt (Finite a) = (if a < 0 then NaN else round32 (sqrt a))"
| "fsqrt PlusInf = PlusInf"
| "fsqrt MinusInf = NaN"
| "fsqrt NaN = NaN"

fun flt :: "float \<Rightarrow> float \<Rightarrow> bool" where
  "flt (Finite a) (Finite b) = (a < b)"
| "flt NaN b = False"
| "flt a NaN = False"
| "flt a MinusInf = False"
| "flt PlusInf b = False"
| "flt MinusInf b = True"
| "flt a PlusInf = True"

definition float_of_int :: "int \<Rightarrow> float" where
  "float_of_int n = round32 (real_of_int n)"

subsection \<open>Vectors, geometry, features\<close>

record vec2 =
  x :: float
  y :: float

record vec3 = vec2 +
  z :: float

text \<open>\<^verbatim>\<open>glm::vec2(v)\<close> for a \<^verbatim>\<open>glm::vec3\<close>: the first two components.\<close>

definition vec2_of :: "vec3 \<Rightarrow> vec2" where
  "vec2_of v = \<lparr>x = x v, y = y v\<rparr>"

text \<open>\<^verbatim>\<open>p2 - p1\<close> and \<^verbatim>\<open>glm::length\<close> on \<^verbatim>\<open>glm::vec2\<close>.\<close>

definition vec2_sub :: "vec2 \<Rightarrow> vec2 \<Rightarrow> vec2" where
  "vec2_sub a b = \<lparr>x = fsub (x a) (x b), y = fsub (y a) (y b)\<rparr>"

definition glm_length :: "vec2 \<Rightarrow> float" where
  "glm_length v = fsqrt (fadd (fmul (x v) (x v)) (fmul (y v) (y v)))"

text \<open>
  Modelled from the spec: the default constructor of \<^verbatim>\<open>glm::vec3\<close> (glm is a
  library of its own). The spec's centroid is the plain sum of the coordinates divided by the vertex
  count, so the accumulator \<^verbatim>\<open>glm::vec3 centroid;\<close> starts at zero.
\<close>

definition vec3_default :: vec3 where
  "vec3_default = \<lparr>x = Finite 0, y = Finite 0, z = Finite 0\<rparr>"

type_synonym Point = vec3
type_synonym Line = "Point list"
type_synonym Polygon = "Line list"

datatype GeometryType = GeometryType_unknown | GeometryType_points | GeometryType_lines | GeometryType_polygons

text \<open>
  Modelled from the spec: \<^verbatim>\<open>Properties\<close> and its \<^verbatim>\<open>getString(key, out)\<close> (tile data,
  declared outside textBatch.cpp), the spec's "property lookup" of the "name" string property.
  It is a lookup by key: \<open>Some s\<close> stands for the return value \<^verbatim>\<open>true\<close> with \<open>s\<close>
  written to the out-parameter, \<open>None\<close> for \<^verbatim>\<open>false\<close>.
\<close>

type_synonym Properties = "string \<rightharpoonup> string"

definition getString :: "Properties \<Rightarrow> string \<Rightarrow> string option" where
  "getString props key = props key"

record Feature =
  geometryType :: GeometryType
  points :: "Point list"
  lines :: "Line list"
  polygons :: "Polygon list"
  props :: Properties

subsection \<open>Labels\<close>

datatype Label_Type = Type_point | Type_line

text \<open>
  One call \<^verbatim>\<open>addLabel(m_style.m_labels->addTextLabel(*this, _tile, {p1, p2}, name, type))\<close>:
  the anchor pair, the text and the label type. The batch and the tile are the same in
  every call of one \<^verbatim>\<open>add\<close> and are left out. The labels of a run are the list of
  these calls, in order; what \<^verbatim>\<open>addTextLabel\<close> makes of a call is up to the label
  collaborator.
\<close>

record TextLabel =
  l_anchor :: "vec2 \<times> vec2"
  l_text :: string
  l_type :: Label_Type

datatype fault = OutOfBounds | DivisionByZero | IntOverflow

datatype status = Done | Fault fault | OutOfFuel

subsection \<open>Integer conversions\<close>

text \<open>Conversion of an integer value to \<^verbatim>\<open>int\<close> (32 bits, two's complement).\<close>

definition to_int :: "int \<Rightarrow> int" where
  "to_int k = (let m = k mod 2 ^ 32 in if m < 2 ^ 31 then m else m - 2 ^ 32)"

text \<open>Conversion of an integer value to \<^verbatim>\<open>size_t\<close> (64 bits, unsigned).\<close>

definition to_size_t :: "int \<Rightarrow> nat" where
  "to_size_t k = nat (k mod 2 ^ 64)"

text \<open>C++ division of \<^verbatim>\<open>int\<close>s truncates towards zero.\<close>

definition c_div :: "int \<Rightarrow> int \<Rightarrow> int" where
  "c_div a b = sgn a * sgn b * (\<bar>a\<bar> div \<bar>b\<bar>)"

definition INT_MAX :: int where
  "INT_MAX = 2 ^ 31 - 1"

subsection \<open>buildPoint\<close>

definition buildPoint :: "Point \<Rightarrow> Properties \<Rightarrow> TextLabel list \<times> status" where
  "buildPoint point prps =
     (case getString prps ''name'' of
        None \<Rightarrow> ([], Done)
      | Some name \<Rightarrow>
          ([\<lparr>l_anchor = (vec2_of point, vec2_of point), l_text = name, l_type = Type_point\<rparr>], Done))"

subsection \<open>buildLine\<close>

text \<open>\<^verbatim>\<open>float minLength = 0.15\<close>: the constant is rounded to a \<^verbatim>\<open>float\<close>.\<close>

definition minLength :: float where
  "minLength = round32 (15 / 100)"

definition lineLabel :: "Line \<Rightarrow> string \<Rightarrow> nat \<Rightarrow> TextLabel" where
  "lineLabel line name i =
     \<lparr>l_anchor = (vec2_of (line ! i), vec2_of (line ! (i + 1))), l_text = name, l_type = Type_line\<rparr>"

definition segLength :: "Line \<Rightarrow> nat \<Rightarrow> float" where
  "segLength line i = glm_length (vec2_sub (vec2_of (line ! (i + 1))) (vec2_of (line ! i)))"

text \<open>
  The loop \<^verbatim>\<open>for (size_t i = 0; i < _line.size() - 1; i += skipOffset)\<close>. The bound is
  computed in \<^verbatim>\<open>size_t\<close>, so it wraps for an empty line; \<^verbatim>\<open>i += skipOffset\<close> converts
  the \<^verbatim>\<open>int\<close> to \<^verbatim>\<open>size_t\<close> and wraps too. The loop need not end, so it runs on fuel:
  one unit per iteration, \<open>OutOfFuel\<close> when none is left. Beside the labels the run
  records the indices of the segments it has read (\<open>sampled\<close>, a ghost list).
\<close>

fun lineLoop :: "nat \<Rightarrow> Line \<Rightarrow> string \<Rightarrow> int \<Rightarrow> nat \<Rightarrow> nat list \<times> TextLabel list
                   \<Rightarrow> (nat list \<times> TextLabel list) \<times> status" where
  "lineLoop 0 line name skipOffset i acc = (acc, OutOfFuel)"
| "lineLoop (Suc fuel) line name skipOffset i (sampled, labels) =
     (if i < to_size_t (int (length line) - 1) then
        (if i + 1 < length line then
           lineLoop fuel line name skipOffset (to_size_t (int i + skipOffset))
             (sampled @ [i],
              if flt (segLength line i) minLength then labels else labels @ [lineLabel line name i])
         else ((sampled, labels), Fault OutOfBounds))
      else ((sampled, labels), Done))"

definition sampleLine :: "nat \<Rightarrow> Line \<Rightarrow> Properties \<Rightarrow> (nat list \<times> TextLabel list) \<times> status" where
  "sampleLine fuel line prps =
     (case getString prps ''name'' of
        None \<Rightarrow> (([], []), Done)
      | Some name \<Rightarrow>
          (let lineLength = to_int (int (length line));
               skipOffset = to_int (c_div lineLength 2)
           in lineLoop fuel line name skipOffset 0 ([], [])))"

definition buildLine :: "nat \<Rightarrow> Line \<Rightarrow> Properties \<Rightarrow> TextLabel list \<times> status" where
  "buildLine fuel line prps = (let r = sampleLine fuel line prps in (snd (fst r), snd r))"

subsection \<open>buildPolygon\<close>

text \<open>
  The two nested loops over the rings and their points: they add the coordinates and
  count the points in an \<^verbatim>\<open>int\<close>; \<^verbatim>\<open>n++\<close> at \<^verbatim>\<open>INT_MAX\<close> is undefined.
\<close>

fun sumRing :: "Line \<Rightarrow> vec3 \<times> int \<Rightarrow> fault + vec3 \<times> int" where
  "sumRing [] acc = Inr acc"
| "sumRing (p # ps) (c, n) =
     (if n = INT_MAX then Inl IntOverflow
      else sumRing ps (c\<lparr>x := fadd (x c) (x p), y := fadd (y c) (y p)\<rparr>, n + 1))"

fun sumRings :: "Polygon \<Rightarrow> vec3 \<times> int \<Rightarrow> fault + vec3 \<times> int" where
  "sumRings [] acc = Inr acc"
| "sumRings (l # ls) acc =
     (case sumRing l acc of Inl e \<Rightarrow> Inl e | Inr acc' \<Rightarrow> sumRings ls acc')"

text \<open>
  \<^verbatim>\<open>centroid /= n\<close>: the count is converted to \<^verbatim>\<open>float\<close> and every component is
  divided by it.
\<close>

definition vec3_div :: "vec3 \<Rightarrow> int \<Rightarrow> vec3" where
  "vec3_div c n =
     \<lparr>x = fdiv (x c) (float_of_int n), y = fdiv (y c) (float_of_int n),
      z = fdiv (z c) (float_of_int n)\<rparr>"

definition buildPolygon :: "Polygon \<Rightarrow> Properties \<Rightarrow> TextLabel list \<times> status" where
  "buildPolygon polygon prps =
     (case getString prps ''name'' of
        None \<Rightarrow> ([], Done)
      | Some name \<Rightarrow>
          (case sumRings polygon (vec3_default, 0) of
             Inl e \<Rightarrow> ([], Fault e)
           | Inr (c, n) \<Rightarrow>
               if n = 0 then ([], Fault DivisionByZero)
               else
                 (let centroid = vec3_div c n
                  in ([\<lparr>l_anchor = (vec2_of centroid, vec2_of centroid), l_text = name,
                         l_type = Type_point\<rparr>], Done))))"

subsection \<open>add\<close>

text \<open>
  A range-based \<^verbatim>\<open>for\<close> over the geometries of a feature: the build function runs on
  each element in turn; a run that does not end with \<open>Done\<close> stops the loop.
\<close>

fun forEach :: "('a \<Rightarrow> TextLabel list \<times> status) \<Rightarrow> 'a list \<Rightarrow> TextLabel list \<times> status" where
  "forEach build [] = ([], Done)"
| "forEach build (g # gs) =
     (case build g of
        (ls, Done) \<Rightarrow> (case forEach build gs of (ls', st) \<Rightarrow> (ls @ ls', st))
      | (ls, st) \<Rightarrow> (ls, st))"

definition add :: "nat \<Rightarrow> Feature \<Rightarrow> TextLabel list \<times> status" where
  "add fuel feature =
     (case geometryType feature of
        GeometryType_points \<Rightarrow> forEach (\<lambda>point. buildPoint point (props feature)) (points feature)
      | GeometryType_lines \<Rightarrow> forEach (\<lambda>line. buildLine fuel line (props feature)) (lines feature)
      | GeometryType_polygons \<Rightarrow>
          forEach (\<lambda>polygon. buildPolygon polygon (props feature)) (polygons feature)
      | GeometryType_unknown \<Rightarrow> ([], Done))"

text \<open>
  The spec's two measures as \<^verbatim>\<open>float\<close> arithmetic computes them. The unweighted
  centroid of a polygon: the coordinates of every vertex of every ring are added one
  after the other, from zero and whatever the ring structure, and the sum is divided by
  the number of vertices. The length of the segment from \<open>a\<close> to \<open>b\<close>: the square root
  of the sum of the squares of the two coordinate differences.
\<close>

definition float_centroid :: "Polygon \<Rightarrow> vec2" where
  "float_centroid polygon =
     (let vs = concat polygon; n = float_of_int (int (length vs))
      in \<lparr>x = fdiv (foldl fadd (Finite 0) (map x vs)) n,
          y = fdiv (foldl fadd (Finite 0) (map y vs)) n\<rparr>)"

definition float_distance :: "vec2 \<Rightarrow> vec2 \<Rightarrow> float" where
  "float_distance a b =
     fsqrt (fadd (fmul (fsub (x b) (x a)) (fsub (x b) (x a)))
                 (fmul (fsub (y b) (y a)) (fsub (y b) (y a))))"

definition unit_square :: Polygon where
  "unit_square =
     [[\<lparr>x = Finite 0, y = Finite 0, z = Finite 0\<rparr>, \<lparr>x = Finite 1, y = Finite 0, z = Finite 0\<rparr>,
       \<lparr>x = Finite 1, y = Finite 1, z = Finite 0\<rparr>, \<lparr>x = Finite 0, y = Finite 1, z = Finite 0\<rparr>]]"

text \<open>A point on the x axis.\<close>

definition on_x_axis :: "real \<Rightarrow> Point" where
  "on_x_axis a = \<lparr>x = Finite a, y = Finite 0, z = Finite 0\<rparr>"

section \<open>The batch and the shared font context\<close>

subsection \<open>Vertices and the mesh\<close>

type_synonym fsuint = nat

text \<open>\<^verbatim>\<open>BufferVert::State\<close>, as \<^verbatim>\<open>transformID\<close> reads it.\<close>

record State =
  screenPos :: vec2
  alpha :: float
  rotation :: float

text \<open>
  Modelled from the spec: the vertex struct \<^verbatim>\<open>BufferVert\<close> (declared outside textBatch.cpp),
  "carrying position, UV, and style state". \<open>BufferVert_init\<close> is the
  value-initialised vertex that \<^verbatim>\<open>vertices.resize(bufferSize)\<close> fills the array with.
\<close>

record BufferVert =
  pos :: vec2
  uv :: vec2
  state :: State

definition BufferVert_init :: BufferVert where
  "BufferVert_init =
     \<lparr>pos = \<lparr>x = Finite 0, y = Finite 0\<rparr>, uv = \<lparr>x = Finite 0, y = Finite 0\<rparr>,
      state = \<lparr>screenPos = \<lparr>x = Finite 0, y = Finite 0\<rparr>, alpha = Finite 0,
               rotation = Finite 0\<rparr>\<rparr>"

text \<open>
  Modelled from the spec: the mesh collaborator \<^verbatim>\<open>TypedMesh<BufferVert>\<close> (declared
  outside textBatch.cpp) with \<^verbatim>\<open>addVertices(vertexArray, layoutHint)\<close>, \<^verbatim>\<open>numVertices()\<close> and
  \<^verbatim>\<open>compileVertexBuffer()\<close>. The mesh keeps the vertex arrays handed to it, in order;
  \<open>addVertices\<close> adds one, \<open>numVertices\<close> counts the vertices of all of them, and
  \<open>compileVertexBuffer\<close> is counted.
\<close>

record Mesh =
  mesh_vertices :: "BufferVert list list"
  mesh_compiles :: nat

definition Mesh_init :: Mesh where
  "Mesh_init = \<lparr>mesh_vertices = [], mesh_compiles = 0\<rparr>"

text \<open>
  Modelled from the spec: \<^verbatim>\<open>addVertices(vertexArray, layoutHint)\<close> of the mesh; the array
  is handed over whole and added to those the mesh holds.
\<close>

definition addVertices :: "BufferVert list \<Rightarrow> Mesh \<Rightarrow> Mesh" where
  "addVertices vertices m = m\<lparr>mesh_vertices := mesh_vertices m @ [vertices]\<rparr>"

text \<open>Modelled from the spec: \<^verbatim>\<open>numVertices()\<close> of the mesh, the number of vertices it holds.\<close>

definition numVertices :: "Mesh \<Rightarrow> nat" where
  "numVertices m = length (concat (mesh_vertices m))"

text \<open>
  Modelled from the spec: \<^verbatim>\<open>compileVertexBuffer()\<close> of the mesh; it builds the GPU buffer
  and leaves the vertices as they are.
\<close>

definition compileVertexBuffer :: "Mesh \<Rightarrow> Mesh" where
  "compileVertexBuffer m = m\<lparr>mesh_compiles := Suc (mesh_compiles m)\<rparr>"

subsection \<open>The font context\<close>

datatype glfons_call =
    glfonsBufferCreate
  | glfonsBufferDelete fsuint
  | glfonsVerticesSize
  | glfonsGenText
  | glfonsRasterize fsuint string
  | glfonsUpdateBuffer
  | glfonsTransform fsuint float float float float
  | glfonsGetBBox fsuint
  | glfonsVertices

datatype event = Lock | Unlock | Bind fsuint | Call glfons_call

text \<open>
  Modelled from the spec: the shared glyph context (\<^verbatim>\<open>FontContext\<close> and the glfons
  library, outside textBatch.cpp). The model keeps the trace of what is done to the context
  (\<open>events\<close>: taking and releasing its lock, binding a buffer, every glfons call) and
  what the context answers: the flattened glyph vertices of the batch's buffer, whether
  \<^verbatim>\<open>glfonsVertices\<close> reports success, the next buffer and text ids, the outcome of a
  rasterization and the bounding box of a text id.
\<close>

record FontContext =
  events :: "event list"
  fs_vertices :: "BufferVert list"
  fs_verticesOk :: bool
  fs_nextBuffer :: fsuint
  fs_nextText :: fsuint
  fs_rasterizeOk :: "fsuint \<Rightarrow> string \<Rightarrow> bool"
  fs_bbox :: "fsuint \<Rightarrow> float \<times> float \<times> float \<times> float"

definition emit :: "event list \<Rightarrow> FontContext \<Rightarrow> FontContext" where
  "emit es ctx = ctx\<lparr>events := events ctx @ es\<rparr>"

text \<open>
  Modelled from the spec: \<^verbatim>\<open>m_fontContext->lock()\<close> and \<^verbatim>\<open>m_fontContext->unlock()\<close>
  take and release the exclusive lock of the shared context.
\<close>

definition lock :: "FontContext \<Rightarrow> FontContext" where
  "lock ctx = emit [Lock] ctx"

definition unlock :: "FontContext \<Rightarrow> FontContext" where
  "unlock ctx = emit [Unlock] ctx"

text \<open>
  Modelled from the spec (4.2): \<^verbatim>\<open>m_fontContext->bind(m_fsBuffer)\<close> acquires the
  exclusive lock and binds the buffer; the scoped context it returns releases the lock
  when it leaves scope (\<open>release\<close>).
\<close>

definition bind :: "fsuint \<Rightarrow> FontContext \<Rightarrow> FontContext" where
  "bind buffer ctx = emit [Lock, Bind buffer] ctx"

definition release :: "FontContext \<Rightarrow> FontContext" where
  "release ctx = emit [Unlock] ctx"

text \<open>
  Every glfons call of a run happens while the lock is held, the lock is not taken
  twice, and it is free at the end: \<open>guarded held es\<close>, with \<open>held\<close> the state of the
  lock before the events \<open>es\<close>.
\<close>

fun guarded :: "bool \<Rightarrow> event list \<Rightarrow> bool" where
  "guarded held [] = (\<not> held)"
| "guarded held (Lock # es) = (\<not> held \<and> guarded True es)"
| "guarded held (Unlock # es) = (held \<and> guarded False es)"
| "guarded held (Bind buffer # es) = (held \<and> guarded held es)"
| "guarded held (Call c # es) = (held \<and> guarded held es)"

subsection \<open>TextBatch\<close>

text \<open>
  The members of the batch. A label is known to the batch only through
  \<^verbatim>\<open>label->pushTransform(*this)\<close>; \<open>'l\<close> is the type of the labels.
\<close>

record 'l TextBatch =
  m_fontContext :: FontContext
  m_fsBuffer :: fsuint
  m_mesh :: Mesh
  m_labels :: "'l list"
  m_dirtyTransform :: bool

text \<open>
  The constructor. \<^verbatim>\<open>m_fsBuffer\<close> is not initialised before \<^verbatim>\<open>init\<close>; the value it
  happens to hold is the parameter \<open>fsBuffer\<close>.
\<close>

definition TextBatch_new :: "FontContext \<Rightarrow> fsuint \<Rightarrow> 'l TextBatch" where
  "TextBatch_new fontContext fsBuffer =
     \<lparr>m_fontContext = fontContext, m_fsBuffer = fsBuffer, m_mesh = Mesh_init, m_labels = [],
      m_dirtyTransform = False\<rparr>"

definition init :: "'l TextBatch \<Rightarrow> 'l TextBatch" where
  "init b =
     (let ctx = lock (m_fontContext b);
          buffer = fs_nextBuffer ctx;
          ctx = (emit [Call glfonsBufferCreate] ctx)\<lparr>fs_nextBuffer := Suc buffer\<rparr>;
          ctx = unlock ctx
      in b\<lparr>m_fontContext := ctx, m_fsBuffer := buffer\<rparr>)"

text \<open>
  The destructor \<^verbatim>\<open>~TextBatch\<close>: one glfons call on the context that
  \<^verbatim>\<open>getFontContext()\<close> returns, the same getter \<^verbatim>\<open>init\<close> uses between its
  \<^verbatim>\<open>lock()\<close> and \<^verbatim>\<open>unlock()\<close>.
\<close>

definition TextBatch_delete :: "'l TextBatch \<Rightarrow> FontContext" where
  "TextBatch_delete b = emit [Call (glfonsBufferDelete (m_fsBuffer b))] (m_fontContext b)"

definition getVerticesSize :: "'l TextBatch \<Rightarrow> int \<times> 'l TextBatch" where
  "getVerticesSize b =
     (let ctx = bind (m_fsBuffer b) (m_fontContext b);
          ctx = emit [Call glfonsVerticesSize] ctx;
          n = int (length (fs_vertices ctx));
          ctx = release ctx
      in (n, b\<lparr>m_fontContext := ctx\<rparr>))"

definition genTextID :: "'l TextBatch \<Rightarrow> fsuint \<times> 'l TextBatch" where
  "genTextID b =
     (let ctx = bind (m_fsBuffer b) (m_fontContext b);
          textID = fs_nextText ctx;
          ctx = (emit [Call glfonsGenText] ctx)\<lparr>fs_nextText := Suc textID\<rparr>;
          ctx = release ctx
      in (textID, b\<lparr>m_fontContext := ctx\<rparr>))"

definition rasterize :: "string \<Rightarrow> fsuint \<Rightarrow> 'l TextBatch \<Rightarrow> bool \<times> 'l TextBatch" where
  "rasterize txt textID b =
     (let ctx = bind (m_fsBuffer b) (m_fontContext b);
          ctx = emit [Call (glfonsRasterize textID txt)] ctx;
          valid = fs_rasterizeOk ctx textID txt;
          ctx = release ctx
      in (valid, b\<lparr>m_fontContext := ctx\<rparr>))"

definition pushBuffer :: "'l TextBatch \<Rightarrow> 'l TextBatch" where
  "pushBuffer b =
     (if m_dirtyTransform b then
        (let ctx = bind (m_fsBuffer b) (m_fontContext b);
             ctx = emit [Call glfonsUpdateBuffer] ctx;
             ctx = release ctx
         in b\<lparr>m_fontContext := ctx, m_dirtyTransform := False\<rparr>)
      else b)"

definition transformID :: "fsuint \<Rightarrow> State \<Rightarrow> 'l TextBatch \<Rightarrow> 'l TextBatch" where
  "transformID textID st b =
     (let ctx = bind (m_fsBuffer b) (m_fontContext b);
          ctx = emit [Call (glfonsTransform textID (x (screenPos st)) (y (screenPos st))
                             (rotation st) (alpha st))] ctx;
          ctx = release ctx
      in b\<lparr>m_fontContext := ctx, m_dirtyTransform := True\<rparr>)"

definition getBBox :: "fsuint \<Rightarrow> 'l TextBatch \<Rightarrow> (float \<times> float \<times> float \<times> float) \<times> 'l TextBatch" where
  "getBBox textID b =
     (let ctx = bind (m_fsBuffer b) (m_fontContext b);
          ctx = emit [Call (glfonsGetBBox textID)] ctx;
          bbox = fs_bbox ctx textID;
          ctx = release ctx
      in (bbox, b\<lparr>m_fontContext := ctx\<rparr>))"

subsection \<open>compile\<close>

text \<open>
  Modelled from the spec: \<^verbatim>\<open>glfonsVertices(ctx, data)\<close> "flattens all runs' glyph
  geometry for the bound buffer into a caller-supplied array" and reports success. It
  writes through a pointer, so the array keeps its size.
\<close>

definition glfonsVertices_fill :: "FontContext \<Rightarrow> BufferVert list \<Rightarrow> bool \<times> BufferVert list" where
  "glfonsVertices_fill ctx vertices =
     (if fs_verticesOk ctx
      then (True, take (length vertices) (fs_vertices ctx) @ drop (length (fs_vertices ctx)) vertices)
      else (False, vertices))"

definition compile :: "'l TextBatch \<Rightarrow> bool \<times> 'l TextBatch" where
  "compile b =
     (case getVerticesSize b of
        (bufferSize, b) \<Rightarrow>
          if bufferSize = 0 then (False, b)
          else
            (let vertices = replicate (nat bufferSize) BufferVert_init;
                 ctx = bind (m_fsBuffer b) (m_fontContext b);
                 ctx = emit [Call glfonsVertices] ctx;
                 (res, vertices) = glfonsVertices_fill ctx vertices;
                 ctx = release ctx;
                 b = b\<lparr>m_fontContext := ctx\<rparr>;
                 b = (if res then b\<lparr>m_mesh := addVertices vertices (m_mesh b)\<rparr> else b)
             in if numVertices (m_mesh b) > 0
                then (True, b\<lparr>m_mesh := compileVertexBuffer (m_mesh b)\<rparr>)
                else (False, b)))"

subsection \<open>prepare\<close>

text \<open>
  Modelled from the spec: \<^verbatim>\<open>Label::pushTransform(batch)\<close> (the label collaborator,
  outside textBatch.cpp) "pushes its current transform into the shared context", that is, it
  calls \<^verbatim>\<open>transformID\<close> on the batch. The calls a label makes in one \<^verbatim>\<open>prepare\<close> are
  given by \<open>pushes\<close>: none for a label with nothing to push.
\<close>

definition pushTransform :: "('l \<Rightarrow> (fsuint \<times> State) list) \<Rightarrow> 'l \<Rightarrow> 'l TextBatch \<Rightarrow> 'l TextBatch" where
  "pushTransform pushes label b = fold (\<lambda>(textID, st). transformID textID st) (pushes label) b"

definition prepare :: "('l \<Rightarrow> (fsuint \<times> State) list) \<Rightarrow> 'l TextBatch \<Rightarrow> 'l TextBatch" where
  "prepare pushes b = pushBuffer (fold (pushTransform pushes) (m_labels b) b)"

text \<open>The number of buffer updates (\<^verbatim>\<open>glfonsUpdateBuffer\<close>) a batch has triggered so far.\<close>

definition flushes :: "'l TextBatch \<Rightarrow> nat" where
  "flushes b = length (filter (\<lambda>e. e = Call glfonsUpdateBuffer) (events (m_fontContext b)))"

text \<open>Small contexts and batches on which the properties below are evaluated.\<close>

definition FontContext_with :: "BufferVert list \<Rightarrow> bool \<Rightarrow> FontContext" where
  "FontContext_with vertices ok =
     \<lparr>events = [], fs_vertices = vertices, fs_verticesOk = ok, fs_nextBuffer = 0, fs_nextText = 0,
      fs_rasterizeOk = (\<lambda>textID txt. True), fs_bbox = (\<lambda>textID. (Finite 0, Finite 0, Finite 0, Finite 0))\<rparr>"

definition BufferVert_at :: "real \<Rightarrow> real \<Rightarrow> BufferVert" where
  "BufferVert_at a b = BufferVert_init\<lparr>pos := \<lparr>x = Finite a, y = Finite b\<rparr>\<rparr>"

definition TextBatch_with :: "BufferVert list \<Rightarrow> bool \<Rightarrow> unit TextBatch" where
  "TextBatch_with vertices ok = init (TextBatch_new (FontContext_with vertices ok) 0)"

section \<open>Lemmas on rounding\<close>

lemma exponent32_eqI:
  assumes "2 powi e \<le> \<bar>r\<bar>" and "\<bar>r\<bar> < 2 powi (e + 1)" and "- 126 \<le> e"
  shows "exponent32 r = e"
proof -
  have p: "(2::real) powr real_of_int k = 2 powi k" for k
    by (rule powr_real_of_int') simp_all
  have "0 < (2::real) powi e" by (simp add: p [symmetric])
  with assms(1) have pos: "0 < \<bar>r\<bar>" by linarith
  have "\<lfloor>log 2 \<bar>r\<bar>\<rfloor> = e"
    using assms(1,2) pos p [of e] p [of "e + 1"]
    by (subst floor_log_eq_powr_iff) (simp_all add: add.commute)
  with assms(3) show ?thesis by (simp add: exponent32_def)
qed

lemma round_even_eqI:
  assumes "real_of_int m - 1 / 2 < r" and "r < real_of_int m + 1 / 2"
  shows "round_even r = m"
proof -
  have "\<lfloor>r\<rfloor> = m \<or> \<lfloor>r\<rfloor> = m - 1" using assms by linarith
  then show ?thesis
  proof
    assume f: "\<lfloor>r\<rfloor> = m"
    then have "r - of_int \<lfloor>r\<rfloor> < 1 / 2" using assms by simp
    then show ?thesis using f by (simp add: round_even_def Let_def)
  next
    assume f: "\<lfloor>r\<rfloor> = m - 1"
    then have "1 / 2 < r - of_int \<lfloor>r\<rfloor>" using assms by simp
    then show ?thesis using f by (simp add: round_even_def Let_def)
  qed
qed

lemma round_even_of_int: "round_even (real_of_int j) = j"
  by (simp add: round_even_def)

lemma round32r_eqI:
  assumes "2 powi e \<le> \<bar>r\<bar>" and "\<bar>r\<bar> < 2 powi (e + 1)" and "- 126 \<le> e"
    and "round_even (r / 2 powi (e - 23)) = m"
  shows "round32r r = real_of_int m * 2 powi (e - 23)"
proof -
  have "0 < (2::real) powi e" by (rule zero_less_power_int) simp
  with assms(1) have "0 < \<bar>r\<bar>" by linarith
  then have "r \<noteq> 0" by simp
  moreover have "exponent32 r = e" using assms(1-3) by (rule exponent32_eqI)
  ultimately show ?thesis using assms(4) by (simp add: round32r_def Let_def)
qed

lemma round32_finite: "round32r r = v \<Longrightarrow> \<bar>v\<bar> < 2 ^ 128 \<Longrightarrow> round32 r = Finite v"
  by (simp add: round32_def)

text \<open>A number with a significand of at most 24 bits and an exponent in range is not changed.\<close>

lemma significand_bound:
  assumes "\<bar>m\<bar> < 2 ^ 24"
  shows "\<bar>real_of_int m * 2 powi k\<bar> < 2 ^ 24 * 2 powi k"
proof -
  have "real_of_int \<bar>m\<bar> < 2 ^ 24"
    using assms by (metis of_int_less_iff of_int_numeral of_int_power)
  moreover have "0 < (2::real) powi k" by (rule zero_less_power_int) simp
  ultimately show ?thesis by (simp add: abs_mult)
qed

lemma round32r_exact:
  assumes "r = real_of_int m * 2 powi k" and "\<bar>m\<bar> < 2 ^ 24" and "- 149 \<le> k"
  shows "round32r r = r"
proof (cases "r = 0")
  case True
  then show ?thesis by (simp add: round32r_def)
next
  case False
  define E where "E = exponent32 r"
  have p: "(2::real) powr real_of_int j = 2 powi j" for j
    by (rule powr_real_of_int') simp_all
  have pos: "0 < \<bar>r\<bar>" using False by simp
  have "\<bar>r\<bar> < 2 ^ 24 * 2 powi k"
    unfolding assms(1) using assms(2) by (rule significand_bound)
  also have "\<dots> = 2 powi (k + 24)"
    by (simp add: power_int_add)
  finally have "\<bar>r\<bar> < 2 powr real_of_int (k + 24)" by (simp only: p)
  then have "log 2 \<bar>r\<bar> < real_of_int (k + 24)"
    using pos by (simp add: less_powr_iff)
  then have "\<lfloor>log 2 \<bar>r\<bar>\<rfloor> < k + 24" by (simp add: floor_less_iff)
  then have E: "E - 23 \<le> k" using assms(3) by (simp add: E_def exponent32_def)
  define j where "j = m * 2 ^ nat (k - (E - 23))"
  have "2 powi k = (2::real) powi (E - 23) * 2 powi (k - (E - 23))"
    by (simp add: power_int_add [symmetric])
  also have "(2::real) powi (k - (E - 23)) = 2 ^ nat (k - (E - 23))"
    using E by (simp add: power_int_def)
  finally have r: "r = real_of_int j * 2 powi (E - 23)"
    by (simp add: assms(1) j_def)
  have q: "(2::real) powi (E - 23) \<noteq> 0" by simp
  have "r / 2 powi (E - 23) = real_of_int j"
    using q by (simp add: r)
  then have "round_even (r / 2 powi (E - 23)) = j"
    by (simp only: round_even_of_int)
  then have "round32r r = real_of_int j * 2 powi (E - 23)"
    using False unfolding round32r_def Let_def E_def by simp
  then show ?thesis by (simp only: r [symmetric])
qed

lemma round32_exact:
  assumes "r = real_of_int m * 2 powi k" and "\<bar>m\<bar> < 2 ^ 24" and "- 149 \<le> k" and "k \<le> 104"
  shows "round32 r = Finite r"
proof -
  have v: "round32r r = r" using assms(1-3) by (rule round32r_exact)
  have "\<bar>r\<bar> < 2 ^ 24 * 2 powi k"
    unfolding assms(1) using assms(2) by (rule significand_bound)
  also have "\<dots> \<le> 2 ^ 24 * 2 powi 104"
  proof -
    have "(2::real) powi k \<le> 2 powi 104"
      using assms(4) by (intro power_int_increasing) simp_all
    then show ?thesis by simp
  qed
  also have "\<dots> = 2 ^ 128" by (simp add: power_int_def)
  finally show ?thesis by (simp add: round32_def v)
qed

lemma round32_int: "\<bar>m\<bar> < 2 ^ 24 \<Longrightarrow> round32 (real_of_int m) = Finite (real_of_int m)"
  by (rule round32_exact [where m = m and k = 0]) simp_all

lemma round32_0: "round32 0 = Finite 0"
  using round32_int [of 0] by simp

lemma round32_1: "round32 1 = Finite 1"
  using round32_int [of 1] by simp

lemma round32_2: "round32 2 = Finite 2"
  using round32_int [of 2] by simp

lemma round32_4: "round32 4 = Finite 4"
  using round32_int [of 4] by simp

lemma round32_half: "round32 (1 / 2) = Finite (1 / 2)"
  by (rule round32_exact [where m = 1 and k = "- 1"]) (simp_all add: power_int_def)

text \<open>The \<^verbatim>\<open>float\<close> that \<^verbatim>\<open>0.15\<close> becomes lies above \<open>0.15\<close>.\<close>

lemma minLength_value: "minLength = Finite (5033165 / 33554432)"
proof -
  have "round32r (15 / 100) = real_of_int 10066330 * 2 powi (- 3 - 23)"
    by (rule round32r_eqI) (simp_all add: power_int_def power_one_over round_even_def Let_def)
  then have "round32r (15 / 100) = 5033165 / 33554432"
    by (simp add: power_int_def power_one_over)
  then show ?thesis
    unfolding minLength_def by (rule round32_finite) simp
qed

lemma sqrt_between:
  assumes "0 \<le> lo" and "lo\<^sup>2 \<le> a" and "a < hi\<^sup>2" and "0 \<le> hi"
  shows "lo \<le> sqrt a \<and> sqrt a < hi"
  using assms by (metis real_le_rsqrt real_less_lsqrt order_trans zero_le_power2)

lemma sqrt_strict_between:
  assumes "0 \<le> lo" and "lo\<^sup>2 < a" and "a < hi\<^sup>2" and "0 \<le> hi"
  shows "lo < sqrt a \<and> sqrt a < hi"
  using assms by (metis real_less_rsqrt real_less_lsqrt order_trans zero_le_power2 less_imp_le)

text \<open>The length of a segment along the x axis whose difference and its square are exact.\<close>

lemma float_distance_axis:
  assumes "round32 (b - a) = Finite d" and "round32 (d * d) = Finite (d * d)"
    and "round32 \<bar>d\<bar> = Finite \<bar>d\<bar>"
  shows "float_distance \<lparr>x = Finite a, y = Finite 0\<rparr> \<lparr>x = Finite b, y = Finite 0\<rparr> = Finite \<bar>d\<bar>"
  using assms by (simp add: float_distance_def fsub_def round32_0)

section \<open>Lemmas on the loops of the placement\<close>

lemma lineLoop_inv:
  assumes "lineLoop fuel line name s i (smp, lbs) = ((smp', lbs'), st)"
    and "lbs = map (lineLabel line name) (filter (\<lambda>j. \<not> flt (segLength line j) minLength) smp)"
    and "\<forall>j\<in>set smp. j + 1 < length line"
  shows "lbs' = map (lineLabel line name) (filter (\<lambda>j. \<not> flt (segLength line j) minLength) smp')
         \<and> (\<forall>j\<in>set smp'. j + 1 < length line)"
  using assms
proof (induction fuel arbitrary: i smp lbs)
  case 0
  then show ?case by auto
next
  case (Suc fuel)
  show ?case
  proof (cases "i < to_size_t (int (length line) - 1) \<and> i + 1 < length line")
    case True
    with Suc.prems(1) have
      "lineLoop fuel line name s (to_size_t (int i + s))
         (smp @ [i], if flt (segLength line i) minLength then lbs else lbs @ [lineLabel line name i])
       = ((smp', lbs'), st)"
      by simp
    moreover have "(if flt (segLength line i) minLength then lbs else lbs @ [lineLabel line name i])
        = map (lineLabel line name) (filter (\<lambda>j. \<not> flt (segLength line j) minLength) (smp @ [i]))"
      using Suc.prems(2) by simp
    moreover have "\<forall>j\<in>set (smp @ [i]). j + 1 < length line"
      using True Suc.prems(3) by simp
    ultimately show ?thesis
      by (rule Suc.IH)
  next
    case False
    with Suc.prems show ?thesis by (auto split: if_splits)
  qed
qed

lemma forEach_labels:
  "l \<in> set (fst (forEach build gs)) \<Longrightarrow> \<exists>g\<in>set gs. l \<in> set (fst (build g))"
proof (induction gs)
  case Nil
  then show ?case by simp
next
  case (Cons g gs)
  then show ?case
    by (cases "build g"; cases "snd (build g)"; cases "forEach build gs") (auto split: status.splits)
qed

lemma forEach_nothing:
  "\<forall>g\<in>set gs. build g = ([], Done) \<Longrightarrow> forEach build gs = ([], Done)"
  by (induction gs) auto

lemma ceil_count: 
  fixes a s k :: nat
  assumes "0 < s"
  shows "k < nat \<lceil>real a / real s\<rceil> \<longleftrightarrow> k * s < a"
proof -
  have "k < nat \<lceil>real a / real s\<rceil> \<longleftrightarrow> int k < \<lceil>real a / real s\<rceil>" by linarith
  also have "\<dots> \<longleftrightarrow> real k < real a / real s" by (simp add: less_ceiling_iff)
  also have "\<dots> \<longleftrightarrow> real k * real s < real a" using assms by (simp add: pos_less_divide_eq)
  also have "\<dots> \<longleftrightarrow> k * s < a" by (metis of_nat_less_iff of_nat_mult)
  finally show ?thesis .
qed

lemma to_size_t_small: "0 \<le> k \<Longrightarrow> k < 2 ^ 64 \<Longrightarrow> to_size_t k = nat k"
  by (simp add: to_size_t_def)

lemma to_int_small: "0 \<le> k \<Longrightarrow> k < 2 ^ 31 \<Longrightarrow> to_int k = k"
  by (simp add: to_int_def Let_def)

lemma c_div_nonneg: "0 \<le> a \<Longrightarrow> c_div a 2 = a div 2"
  by (cases "a = 0") (simp_all add: c_div_def)

lemma lineLoop_stride:
  fixes s k m :: nat
  assumes "length line < 2 ^ 31" and "0 < s" and "s \<le> length line"
    and "m = nat \<lceil>real (length line - 1) / real s\<rceil>"
    and "k \<le> m" and "m - k < fuel"
  shows "\<exists>lbs'. lineLoop fuel line name (int s) (k * s) (smp, lbs)
           = ((smp @ map (\<lambda>j. j * s) [k..<m], lbs'), Done)"
  using assms(5,6)
proof (induction fuel arbitrary: k smp lbs)
  case 0
  then show ?case by simp
next
  case (Suc fuel)
  have N: "1 \<le> length line" using assms(2,3) by linarith
  have bound: "to_size_t (int (length line) - 1) = length line - 1"
    using N assms(1) by (subst to_size_t_small) auto
  have cnt: "k < m \<longleftrightarrow> k * s < length line - 1"
    unfolding assms(4) using assms(2) by (rule ceil_count)
  show ?case
  proof (cases "k < m")
    case True
    then have lt: "k * s < length line - 1" using cnt by simp
    have "int (k * s) + int s < 2 ^ 64"
    proof -
      have "length line < 2147483648" using assms(1) by simp
      then have "int (k * s) + int s < 4294967296" using lt assms(3) by linarith
      then show ?thesis by simp
    qed
    moreover have eq: "int (k * s) + int s = int (Suc k * s)" by simp
    ultimately have "to_size_t (int (Suc k * s)) = nat (int (Suc k * s))"
      by (intro to_size_t_small) (simp_all only: of_nat_0_le_iff)
    then have nxt: "to_size_t (int (k * s) + int s) = Suc k * s"
      by (simp only: eq nat_int)
    from Suc.IH [of "Suc k"] True Suc.prems
    obtain lbs' where
      "lineLoop fuel line name (int s) (Suc k * s)
         (smp @ [k * s], if flt (segLength line (k * s)) minLength then lbs else lbs @ [lineLabel line name (k * s)])
       = (((smp @ [k * s]) @ map (\<lambda>j. j * s) [Suc k..<m], lbs'), Done)"
      by (metis Suc_diff_Suc Suc_leI Suc_less_SucD)
    moreover have "[k..<m] = k # [Suc k..<m]" using True by (rule upt_conv_Cons)
    ultimately show ?thesis
      using lt bound nxt by (auto simp del: mult_Suc)
  next
    case False
    with Suc.prems have "k = m" by simp
    with False cnt bound show ?thesis by simp
  qed
qed

lemma count_le:
  fixes s :: nat
  assumes "0 < s"
  shows "nat \<lceil>real a / real s\<rceil> \<le> a"
proof (rule ccontr)
  assume "\<not> nat \<lceil>real a / real s\<rceil> \<le> a"
  then have "a < nat \<lceil>real a / real s\<rceil>" by (simp only: not_le)
  then have "a * s < a" using ceil_count [OF assms] by simp
  with assms show False by simp
qed


lemma sumRing_sum:
  "n + int (length ps) \<le> INT_MAX \<Longrightarrow>
   sumRing ps (c, n) =
     Inr (\<lparr>x = foldl fadd (x c) (map x ps), y = foldl fadd (y c) (map y ps), z = z c\<rparr>,
          n + int (length ps))"
proof (induction ps arbitrary: c n)
  case Nil
  then show ?case by simp
next
  case (Cons p ps)
  then show ?case by (simp add: add.assoc)
qed

lemma sumRings_sum:
  "n + int (length (concat rs)) \<le> INT_MAX \<Longrightarrow>
   sumRings rs (c, n) =
     Inr (\<lparr>x = foldl fadd (x c) (map x (concat rs)), y = foldl fadd (y c) (map y (concat rs)),
           z = z c\<rparr>,
          n + int (length (concat rs)))"
proof (induction rs arbitrary: c n)
  case Nil
  then show ?case by simp
next
  case (Cons r rs)
  then show ?case by (simp add: sumRing_sum add.assoc)
qed

lemma buildPolygon_centroid:
  assumes "getString prps ''name'' = Some name"
    and "0 < length (concat polygon)" and "length (concat polygon) < 2 ^ 31"
  shows "buildPolygon polygon prps =
           ([\<lparr>l_anchor = (float_centroid polygon, float_centroid polygon),
              l_text = name, l_type = Type_point\<rparr>], Done)"
proof -
  have "0 + int (length (concat polygon)) \<le> INT_MAX"
    using assms(3) by (simp add: INT_MAX_def)
  then have "sumRings polygon (vec3_default, 0) =
     Inr (\<lparr>x = foldl fadd (x vec3_default) (map x (concat polygon)),
           y = foldl fadd (y vec3_default) (map y (concat polygon)), z = z vec3_default\<rparr>,
          0 + int (length (concat polygon)))"
    by (rule sumRings_sum)
  then show ?thesis
    using assms(1,2)
    by (simp add: buildPolygon_def vec3_default_def vec3_div_def vec2_of_def float_centroid_def Let_def)
qed

lemma forEach_map:
  "\<forall>g\<in>set gs. build g = ([f g], Done) \<Longrightarrow> forEach build gs = (map f gs, Done)"
  by (induction gs) auto


lemma buildPoint_text:
  "l \<in> set (fst (buildPoint p prps)) \<Longrightarrow> getString prps ''name'' = Some (l_text l)"
  by (auto simp: buildPoint_def split: option.splits)

lemma buildPolygon_text:
  "l \<in> set (fst (buildPolygon p prps)) \<Longrightarrow> getString prps ''name'' = Some (l_text l)"
  by (auto simp: buildPolygon_def Let_def split: option.splits sum.splits if_splits)

lemma sampleLine_labels:
  assumes "getString prps ''name'' = Some name"
  shows "snd (fst (sampleLine fuel line prps)) =
           map (lineLabel line name)
             (filter (\<lambda>j. \<not> flt (segLength line j) minLength) (fst (fst (sampleLine fuel line prps))))
         \<and> (\<forall>j\<in>set (fst (fst (sampleLine fuel line prps))). j + 1 < length line)"
proof -
  obtain s where run: "sampleLine fuel line prps = lineLoop fuel line name s 0 ([], [])"
    using assms by (simp add: sampleLine_def Let_def)
  obtain smp' lbs' st where res: "lineLoop fuel line name s 0 ([], []) = ((smp', lbs'), st)"
    by (metis surj_pair)
  from res have
    "lbs' = map (lineLabel line name) (filter (\<lambda>j. \<not> flt (segLength line j) minLength) smp')
     \<and> (\<forall>j\<in>set smp'. j + 1 < length line)"
    by (rule lineLoop_inv) simp_all
  then show ?thesis by (simp add: run res)
qed

lemma buildLine_text:
  assumes "l \<in> set (fst (buildLine fuel line prps))"
  shows "getString prps ''name'' = Some (l_text l)"
proof (cases "getString prps ''name''")
  case None
  with assms show ?thesis by (simp add: buildLine_def sampleLine_def)
next
  case (Some name)
  from sampleLine_labels [OF Some, of fuel line] assms
  have "l_text l = name" by (auto simp: buildLine_def Let_def lineLabel_def)
  with Some show ?thesis by simp
qed

lemma segLength_distance:
  "segLength line i = float_distance (vec2_of (line ! i)) (vec2_of (line ! (i + 1)))"
  by (simp add: segLength_def glm_length_def vec2_sub_def float_distance_def)

text \<open>Roundings that the examples below meet.\<close>

lemma round32_16777216: "round32 16777216 = Finite 16777216"
  by (rule round32_exact [where m = 8388608 and k = 1]) simp_all

lemma round32_16777217: "round32 16777217 = Finite 16777216"
proof -
  have "round32r 16777217 = real_of_int 8388608 * 2 powi (24 - 23)"
    by (rule round32r_eqI) (simp_all add: power_int_def round_even_def Let_def)
  then have "round32r 16777217 = 16777216" by simp
  then show ?thesis by (rule round32_finite) simp
qed

lemma round32_8388608: "round32 8388608 = Finite 8388608"
  using round32_int [of 8388608] by simp

lemma round32_eighth: "round32 (1 / 8) = Finite (1 / 8)"
  by (rule round32_exact [where m = 1 and k = "- 3"]) (simp_all add: power_int_def power_one_over)

lemma round32_64th: "round32 (1 / 64) = Finite (1 / 64)"
  by (rule round32_exact [where m = 1 and k = "- 6"]) (simp_all add: power_int_def power_one_over)

lemma round32_7_8: "round32 (7 / 8) = Finite (7 / 8)"
  by (rule round32_exact [where m = 7 and k = "- 3"]) (simp_all add: power_int_def power_one_over)

lemma round32_49_64: "round32 (49 / 64) = Finite (49 / 64)"
  by (rule round32_exact [where m = 49 and k = "- 6"]) (simp_all add: power_int_def power_one_over)

text \<open>
  The segment from \<open>-1/32\<close> to \<open>15938355 / 2^27\<close> on the x axis: its exact length
  \<open>20132659 / 2^27\<close> lies midway between two \<^verbatim>\<open>float\<close>s and is rounded to the upper
  one, the \<^verbatim>\<open>float\<close> of \<open>0.15\<close>; squaring and taking the root give the same again.
\<close>

lemma round32_tie: "round32 (20132659 / 134217728) = Finite (5033165 / 33554432)"
proof -
  have "round32r (20132659 / 134217728) = real_of_int 10066330 * 2 powi (- 3 - 23)"
    by (rule round32r_eqI) (simp_all add: power_int_def power_one_over round_even_def Let_def)
  then have "round32r (20132659 / 134217728) = 5033165 / 33554432"
    by (simp add: power_int_def power_one_over)
  then show ?thesis by (rule round32_finite) simp
qed

lemma round32_square: "round32 (25332749917225 / 1125899906842624) = Finite (3019899 / 134217728)"
proof -
  have "round32r (25332749917225 / 1125899906842624) = real_of_int 12079596 * 2 powi (- 6 - 23)"
    by (rule round32r_eqI) (simp_all add: power_int_def power_one_over round_even_def Let_def)
  then have "round32r (25332749917225 / 1125899906842624) = 3019899 / 134217728"
    by (simp add: power_int_def power_one_over)
  then show ?thesis by (rule round32_finite) simp
qed

lemma round32_square_exact: "round32 (3019899 / 134217728) = Finite (3019899 / 134217728)"
  by (rule round32_exact [where m = 12079596 and k = "- 29"])
    (simp_all add: power_int_def power_one_over)

lemma round32_root: "round32 (sqrt (3019899 / 134217728)) = Finite (5033165 / 33554432)"
proof -
  have b: "1 / 8 \<le> sqrt (3019899 / 134217728) \<and> sqrt (3019899 / 134217728) < 1 / 4"
    by (rule sqrt_between) (simp_all add: power2_eq_square)
  have c: "(10066330 - 1 / 2) / 67108864 < sqrt (3019899 / 134217728)
        \<and> sqrt (3019899 / 134217728) < (10066330 + 1 / 2) / 67108864"
    by (rule sqrt_strict_between) (simp_all add: power2_eq_square)
  have "round32r (sqrt (3019899 / 134217728)) = real_of_int 10066330 * 2 powi (- 3 - 23)"
  proof (rule round32r_eqI)
    show "round_even (sqrt (3019899 / 134217728) / 2 powi (- 3 - 23)) = 10066330"
      using c by (intro round_even_eqI) (simp_all add: power_int_def power_one_over field_simps)
  qed (use b in \<open>simp_all add: power_int_def power_one_over\<close>)
  then have "round32r (sqrt (3019899 / 134217728)) = 5033165 / 33554432"
    by (simp add: power_int_def power_one_over)
  then show ?thesis by (rule round32_finite) simp
qed

lemma segLength_tie:
  "segLength [on_x_axis (- (1 / 32)), on_x_axis (15938355 / 134217728)] 0 = Finite (5033165 / 33554432)"
proof -
  have d: "fsub (Finite (15938355 / 134217728)) (Finite (- (1 / 32))) = Finite (5033165 / 33554432)"
    by (simp add: fsub_def round32_tie)
  have z: "fsub (Finite 0) (Finite 0) = Finite 0"
    by (simp add: fsub_def round32_0)
  have s: "fmul (Finite (5033165 / 33554432)) (Finite (5033165 / 33554432)) = Finite (3019899 / 134217728)"
    by (simp add: round32_square)
  have a: "fadd (Finite (3019899 / 134217728)) (Finite 0) = Finite (3019899 / 134217728)"
    by (simp add: round32_square_exact)
  have r: "fsqrt (Finite (3019899 / 134217728)) = Finite (5033165 / 33554432)"
    by (simp add: round32_root)
  have "vec2_sub (vec2_of (on_x_axis (15938355 / 134217728))) (vec2_of (on_x_axis (- (1 / 32))))
      = \<lparr>x = Finite (5033165 / 33554432), y = Finite 0\<rparr>"
    by (simp only: vec2_sub_def vec2_of_def on_x_axis_def vec2.simps vec3.simps d z)
  then show ?thesis
    by (simp add: segLength_def glm_length_def round32_square round32_square_exact round32_root
        round32_0)
qed

section \<open>The claims on label placement\<close>

text \<open>
  C1, as amended. A feature whose properties have no "name" entry gets no label from
  \<open>add\<close> and no \<^verbatim>\<open>addTextLabel\<close> call is made, whether it holds points, lines or
  polygons; and every label \<open>add\<close> requests carries the "name" string of the feature as
  its text, so labels are created only for features that have the property. An empty
  "name" is not set apart: see the counterexample.
\<close>

theorem add_needs_name:
  "(getString (props f) ''name'' = None \<longrightarrow> add fuel f = ([], Done))
   \<and> (\<forall>l\<in>set (fst (add fuel f)). getString (props f) ''name'' = Some (l_text l))"
proof
  show "getString (props f) ''name'' = None \<longrightarrow> add fuel f = ([], Done)"
    by (cases "geometryType f")
      (auto simp: add_def buildPoint_def buildLine_def sampleLine_def buildPolygon_def
        intro!: forEach_nothing)
next
  show "\<forall>l\<in>set (fst (add fuel f)). getString (props f) ''name'' = Some (l_text l)"
  proof
    fix l
    assume "l \<in> set (fst (add fuel f))"
    then show "getString (props f) ''name'' = Some (l_text l)"
      by (cases "geometryType f")
        (auto simp: add_def dest!: forEach_labels
          dest: buildPoint_text buildLine_text buildPolygon_text)
  qed
qed

theorem add_needs_name_witness:
  "getString [''kind'' \<mapsto> ''lake''] ''name'' = None
   \<and> add 0 \<lparr>geometryType = GeometryType_points, points = [\<lparr>x = Finite 10, y = Finite 20, z = Finite 0\<rparr>],
       lines = [], polygons = [], props = [''kind'' \<mapsto> ''lake'']\<rparr> = ([], Done)
   \<and> add 0 \<lparr>geometryType = GeometryType_points, points = [\<lparr>x = Finite 10, y = Finite 20, z = Finite 0\<rparr>],
       lines = [], polygons = [], props = [''name'' \<mapsto> ''Lake'']\<rparr>
     = ([\<lparr>l_anchor = (\<lparr>x = Finite 10, y = Finite 20\<rparr>, \<lparr>x = Finite 10, y = Finite 20\<rparr>), l_text = ''Lake'',
          l_type = Type_point\<rparr>], Done)
   \<and> getString [''name'' \<mapsto> ''Lake''] ''name'' = Some ''Lake''"
proof -
  have lake: "add 0 \<lparr>geometryType = GeometryType_points, points = [\<lparr>x = Finite 10, y = Finite 20, z = Finite 0\<rparr>],
       lines = [], polygons = [], props = [''name'' \<mapsto> ''Lake'']\<rparr>
     = ([\<lparr>l_anchor = (\<lparr>x = Finite 10, y = Finite 20\<rparr>, \<lparr>x = Finite 10, y = Finite 20\<rparr>), l_text = ''Lake'',
          l_type = Type_point\<rparr>], Done)"
    by (simp add: add_def buildPoint_def getString_def vec2_of_def)
  show ?thesis
    using add_needs_name [of "\<lparr>geometryType = GeometryType_points,
         points = [\<lparr>x = Finite 10, y = Finite 20, z = Finite 0\<rparr>], lines = [], polygons = [],
         props = [''kind'' \<mapsto> ''lake'']\<rparr>" 0]
      add_needs_name [of "\<lparr>geometryType = GeometryType_points,
         points = [\<lparr>x = Finite 10, y = Finite 20, z = Finite 0\<rparr>], lines = [], polygons = [],
         props = [''name'' \<mapsto> ''Lake'']\<rparr>" 0]
    by (simp add: lake) (simp add: getString_def)
qed

text \<open>
  Against C1 as stated: a point feature whose "name" is the empty string still gets a
  label, with the empty text.
\<close>

theorem add_empty_name_counterexample:
  "getString [''name'' \<mapsto> ''''] ''name'' = Some ''''
   \<and> add 0 \<lparr>geometryType = GeometryType_points, points = [\<lparr>x = Finite 10, y = Finite 20, z = Finite 0\<rparr>],
       lines = [], polygons = [], props = [''name'' \<mapsto> '''']\<rparr>
     = ([\<lparr>l_anchor = (\<lparr>x = Finite 10, y = Finite 20\<rparr>, \<lparr>x = Finite 10, y = Finite 20\<rparr>), l_text = '''',
          l_type = Type_point\<rparr>], Done)"
  by (simp add: add_def buildPoint_def getString_def vec2_of_def)

text \<open>
  C2, as amended. For a polygon feature with a "name" property, each of whose polygons
  has at least one and fewer than \<open>2^31\<close> vertices, \<open>add\<close> requests exactly one label
  per polygon of the feature, in their order: of type point, with the name as text, and
  anchored (both anchor points) at the unweighted centroid of all ring vertices of that
  polygon as \<^verbatim>\<open>float\<close> arithmetic computes it: the coordinates are added one after the
  other, each sum rounded, and the sum is divided by the vertex count. For the unit
  square the anchor is \<open>(1/2, 1/2)\<close> (the witness).
\<close>

theorem add_polygons_centroid:
  assumes "geometryType f = GeometryType_polygons"
    and "getString (props f) ''name'' = Some name"
    and "\<forall>p\<in>set (polygons f). 0 < length (concat p) \<and> length (concat p) < 2 ^ 31"
  shows "add fuel f =
           (map (\<lambda>p. \<lparr>l_anchor = (float_centroid p, float_centroid p),
                      l_text = name, l_type = Type_point\<rparr>) (polygons f), Done)"
proof -
  have "\<forall>p\<in>set (polygons f). buildPolygon p (props f) =
          ([\<lparr>l_anchor = (float_centroid p, float_centroid p),
              l_text = name, l_type = Type_point\<rparr>], Done)"
    using assms(2,3) by (simp add: buildPolygon_centroid)
  then have "forEach (\<lambda>p. buildPolygon p (props f)) (polygons f) =
           (map (\<lambda>p. \<lparr>l_anchor = (float_centroid p, float_centroid p),
                      l_text = name, l_type = Type_point\<rparr>) (polygons f), Done)"
    by (rule forEach_map)
  then show ?thesis using assms(1) by (simp add: add_def)
qed

theorem add_polygons_centroid_witness:
  "add 0 \<lparr>geometryType = GeometryType_polygons, points = [], lines = [],
           polygons = [unit_square], props = [''name'' \<mapsto> ''Lake'']\<rparr>
   = ([\<lparr>l_anchor = (\<lparr>x = Finite (1 / 2), y = Finite (1 / 2)\<rparr>,
                   \<lparr>x = Finite (1 / 2), y = Finite (1 / 2)\<rparr>),
        l_text = ''Lake'', l_type = Type_point\<rparr>], Done)"
proof -
  have c: "float_centroid unit_square = \<lparr>x = Finite (1 / 2), y = Finite (1 / 2)\<rparr>"
    by (simp add: unit_square_def float_centroid_def float_of_int_def Let_def
        round32_0 round32_1 round32_2 round32_4 round32_half)
  show ?thesis
    using add_polygons_centroid [of "\<lparr>geometryType = GeometryType_polygons, points = [],
           lines = [], polygons = [unit_square], props = [''name'' \<mapsto> ''Lake'']\<rparr>" "''Lake''" 0]
    by (simp add: getString_def c) (simp add: unit_square_def)
qed

text \<open>
  Against C2 as stated: a polygon feature holding two polygons gets two labels, not
  exactly one. And the sum is a \<^verbatim>\<open>float\<close> sum: for the polygon with the two vertices
  \<open>(16777216, 0)\<close> and \<open>(1, 0)\<close> the anchor is \<open>(8388608, 0)\<close>, since \<open>16777216 + 1\<close>
  is rounded to \<open>16777216\<close>, where the exact centroid is \<open>(8388608.5, 0)\<close>.
\<close>

theorem add_polygons_counterexample:
  "add 0 \<lparr>geometryType = GeometryType_polygons, points = [], lines = [],
           polygons = [unit_square, unit_square], props = [''name'' \<mapsto> ''Lake'']\<rparr>
   = ([\<lparr>l_anchor = (\<lparr>x = Finite (1 / 2), y = Finite (1 / 2)\<rparr>,
                   \<lparr>x = Finite (1 / 2), y = Finite (1 / 2)\<rparr>),
        l_text = ''Lake'', l_type = Type_point\<rparr>,
       \<lparr>l_anchor = (\<lparr>x = Finite (1 / 2), y = Finite (1 / 2)\<rparr>,
                   \<lparr>x = Finite (1 / 2), y = Finite (1 / 2)\<rparr>),
        l_text = ''Lake'', l_type = Type_point\<rparr>], Done)
   \<and> add 0 \<lparr>geometryType = GeometryType_polygons, points = [], lines = [],
           polygons = [[[on_x_axis 16777216, on_x_axis 1]]], props = [''name'' \<mapsto> ''Lake'']\<rparr>
     = ([\<lparr>l_anchor = (\<lparr>x = Finite 8388608, y = Finite 0\<rparr>, \<lparr>x = Finite 8388608, y = Finite 0\<rparr>),
          l_text = ''Lake'', l_type = Type_point\<rparr>], Done)
   \<and> (16777216 + 1) / 2 > (8388608 :: real)"
proof -
  have n: "getString [''name'' \<mapsto> ''Lake''] ''name'' = Some ''Lake''"
    by (simp add: getString_def)
  have sq: "buildPolygon unit_square [''name'' \<mapsto> ''Lake'']
      = ([\<lparr>l_anchor = (\<lparr>x = Finite (1 / 2), y = Finite (1 / 2)\<rparr>,
                      \<lparr>x = Finite (1 / 2), y = Finite (1 / 2)\<rparr>),
           l_text = ''Lake'', l_type = Type_point\<rparr>], Done)"
    by (simp add: buildPolygon_def n unit_square_def vec3_default_def INT_MAX_def vec3_div_def
        vec2_of_def float_of_int_def round32_0 round32_1 round32_2 round32_4 round32_half)
  have big: "buildPolygon [[on_x_axis 16777216, on_x_axis 1]] [''name'' \<mapsto> ''Lake'']
      = ([\<lparr>l_anchor = (\<lparr>x = Finite 8388608, y = Finite 0\<rparr>, \<lparr>x = Finite 8388608, y = Finite 0\<rparr>),
           l_text = ''Lake'', l_type = Type_point\<rparr>], Done)"
    by (simp add: buildPolygon_def n on_x_axis_def vec3_default_def INT_MAX_def vec3_div_def
        vec2_of_def float_of_int_def round32_0 round32_2 round32_16777216 round32_16777217
        round32_8388608)
  show ?thesis
    by (simp add: add_def sq big)
qed

text \<open>
  C3 fails on the code. With a "name" property, an empty line makes \<open>buildLine\<close> enter
  its loop (the bound \<^verbatim>\<open>_line.size() - 1\<close> wraps) and read \<^verbatim>\<open>_line[0]\<close> and
  \<^verbatim>\<open>_line[1]\<close> of an empty vector, and a polygon without vertices makes
  \<open>buildPolygon\<close> divide the centroid by \<open>n = 0\<close>.
\<close>

theorem add_empty_geometry_faults:
  "add (Suc fuel) \<lparr>geometryType = GeometryType_lines, points = [], lines = [[]],
           polygons = [], props = [''name'' \<mapsto> ''A'']\<rparr> = ([], Fault OutOfBounds)
   \<and> add fuel \<lparr>geometryType = GeometryType_polygons, points = [], lines = [],
           polygons = [[]], props = [''name'' \<mapsto> ''A'']\<rparr> = ([], Fault DivisionByZero)"
  by (simp add: add_def buildLine_def sampleLine_def buildPolygon_def getString_def
      to_int_def to_size_t_def c_div_def vec3_default_def)

text \<open>
  C7, as amended. For a line with a "name" property and \<open>N\<close> vertices,
  \<open>1 \<le> N < 2^31\<close>, the loop of \<open>buildLine\<close> ends (fuel \<open>N\<close> is enough) after reading
  exactly \<open>\<lceil>(N - 1) / max 1 \<lfloor>N / 2\<rfloor>\<rceil>\<close> segments: those that start at the vertex indices
  \<open>0, \<lfloor>N/2\<rfloor>, 2 \<lfloor>N/2\<rfloor>, ...\<close>.
\<close>

theorem sampleLine_sampled:
  assumes "getString prps ''name'' = Some name"
    and "1 \<le> length line" and "length line < 2 ^ 31" and "length line \<le> fuel"
  shows "\<exists>labels. sampleLine fuel line prps
           = ((map (\<lambda>k. k * (length line div 2))
                 [0..<nat \<lceil>(real (length line) - 1) / real (max 1 (length line div 2))\<rceil>], labels), Done)"
proof -
  let ?N = "length line"
  have len: "to_int (int ?N) = int ?N" using assms(3) by (simp add: to_int_small)
  have skip: "to_int (c_div (int ?N) 2) = int (?N div 2)"
  proof -
    have "c_div (int ?N) 2 = int ?N div 2" by (rule c_div_nonneg) simp
    moreover have "int ?N div 2 < 2 ^ 31"
    proof -
      have "?N < 2147483648" using assms(3) by simp
      then have "int ?N div 2 < 2147483648" by linarith
      then show ?thesis by simp
    qed
    ultimately show ?thesis by (simp add: to_int_small zdiv_int)
  qed
  have run: "sampleLine fuel line prps = lineLoop fuel line name (int (?N div 2)) 0 ([], [])"
    using assms(1) len skip by (simp add: sampleLine_def)
  have sub: "real ?N - 1 = real (?N - 1)" using assms(2) by (simp add: of_nat_diff)
  show ?thesis
  proof (cases "?N = 1")
    case True
    obtain f where f: "fuel = Suc f" using assms(2,4) by (cases fuel) auto
    show ?thesis unfolding run using True by (simp add: f to_size_t_def)
  next
    case False
    then have s: "0 < ?N div 2" using assms(2) by (simp add: div_greater_zero_iff)
    define m where "m = nat \<lceil>real (?N - 1) / real (?N div 2)\<rceil>"
    have "m \<le> ?N - 1" unfolding m_def using s by (rule count_le)
    then have fuel: "m - 0 < fuel" using assms(2,4) by linarith
    have "\<exists>lbs'. lineLoop fuel line name (int (?N div 2)) (0 * (?N div 2)) ([], [])
           = (([] @ map (\<lambda>j. j * (?N div 2)) [0..<m], lbs'), Done)"
      using assms(3) s _ m_def _ fuel by (rule lineLoop_stride) simp_all
    moreover have "max 1 (?N div 2) = ?N div 2" using s by simp
    ultimately show ?thesis unfolding run sub m_def by simp
  qed
qed

theorem sampleLine_sampled_witness:
  "getString [''name'' \<mapsto> ''A''] ''name'' = Some ''A''
   \<and> (\<exists>labels. sampleLine 5
         [\<lparr>x = Finite 0, y = Finite 0, z = Finite 0\<rparr>, \<lparr>x = Finite 1, y = Finite 0, z = Finite 0\<rparr>, \<lparr>x = Finite 2, y = Finite 0, z = Finite 0\<rparr>,
          \<lparr>x = Finite 3, y = Finite 0, z = Finite 0\<rparr>, \<lparr>x = Finite 4, y = Finite 0, z = Finite 0\<rparr>] [''name'' \<mapsto> ''A'']
       = (([0, 2], labels), Done))"
proof -
  let ?line = "[\<lparr>x = Finite 0, y = Finite 0, z = Finite 0\<rparr>, \<lparr>x = Finite 1, y = Finite 0, z = Finite 0\<rparr>, \<lparr>x = Finite 2, y = Finite 0, z = Finite 0\<rparr>,
          \<lparr>x = Finite 3, y = Finite 0, z = Finite 0\<rparr>, \<lparr>x = Finite 4, y = Finite 0, z = Finite 0\<rparr>]"
  have n: "getString [''name'' \<mapsto> ''A''] ''name'' = Some ''A''"
    by (simp add: getString_def)
  have r: "\<exists>labels. sampleLine 5 ?line [''name'' \<mapsto> ''A'']
           = ((map (\<lambda>k. k * (length ?line div 2))
                 [0..<nat \<lceil>(real (length ?line) - 1) / real (max 1 (length ?line div 2))\<rceil>], labels), Done)"
    by (rule sampleLine_sampled [OF n]) simp_all
  have v: "map (\<lambda>k. k * (length ?line div 2))
             [0..<nat \<lceil>(real (length ?line) - 1) / real (max 1 (length ?line div 2))\<rceil>] = [0, 2]"
    by (simp add: upt_rec)
  from r show ?thesis
    unfolding v using n by simp
qed

text \<open>
  Against C7 as stated: a line of \<open>2^32 - 2\<close> vertices. Its size becomes the \<^verbatim>\<open>int\<close>
  \<open>-2\<close>, the stride \<open>-1\<close>; after the first segment \<^verbatim>\<open>i += skipOffset\<close> wraps to
  \<open>2^64 - 1\<close> and the loop ends: one segment is read, where the formula gives two.
\<close>

theorem sampleLine_counterexample:
  "sampleLine 2 (replicate 4294967294 \<lparr>x = Finite 0, y = Finite 0, z = Finite 0\<rparr>) [''name'' \<mapsto> ''A'']
     = (([0], []), Done)
   \<and> nat \<lceil>(real (length (replicate 4294967294 \<lparr>x = Finite 0, y = Finite 0, z = Finite 0\<rparr>)) - 1)
          / real (max 1 (length (replicate 4294967294 \<lparr>x = Finite 0, y = Finite 0, z = Finite 0\<rparr>) div 2))\<rceil> = 2"
proof -
  have "lineLoop (Suc (Suc 0)) (replicate 4294967294 \<lparr>x = Finite 0, y = Finite 0, z = Finite 0\<rparr>) ''A'' (- 1) 0 ([], [])
     = (([0], []), Done)"
    by (simp add: to_size_t_def segLength_def vec2_of_def vec2_sub_def glm_length_def fsub_def
        round32_0 minLength_value)
  moreover have "to_int (c_div (to_int 4294967294) 2) = - 1"
    by (simp add: to_int_def c_div_def)
  ultimately have "sampleLine 2 (replicate 4294967294 \<lparr>x = Finite 0, y = Finite 0, z = Finite 0\<rparr>) [''name'' \<mapsto> ''A'']
     = (([0], []), Done)"
    by (simp add: sampleLine_def getString_def numeral_2_eq_2)
  moreover have "nat \<lceil>(real (length (replicate 4294967294 \<lparr>x = Finite 0, y = Finite 0, z = Finite 0\<rparr>)) - 1)
          / real (max 1 (length (replicate 4294967294 \<lparr>x = Finite 0, y = Finite 0, z = Finite 0\<rparr>) div 2))\<rceil> = 2"
    by simp
  ultimately show ?thesis
    by (rule conjI)
qed

text \<open>
  C8, as amended. With a "name" property, the labels of \<open>buildLine\<close> are, in order,
  exactly the segments it has read whose length, as \<^verbatim>\<open>float\<close> arithmetic computes it,
  is not less than the \<^verbatim>\<open>float\<close> of \<open>0.15\<close>, which is \<open>5033165 / 33554432\<close>: each label
  is of type line and anchored at the two end points of its segment, and a segment whose
  computed length is less gives no label. A computed length that is finite is therefore
  above \<open>0.15\<close> for every label. Every segment read lies within the line. This holds
  for every amount of fuel, hence at every point of a run.
\<close>

theorem buildLine_labels:
  assumes "getString prps ''name'' = Some name"
  shows "fst (buildLine fuel line prps) =
           map (\<lambda>i. \<lparr>l_anchor = (vec2_of (line ! i), vec2_of (line ! (i + 1))), l_text = name,
                      l_type = Type_line\<rparr>)
             (filter (\<lambda>i. \<not> flt (float_distance (vec2_of (line ! i)) (vec2_of (line ! (i + 1))))
                              (Finite (5033165 / 33554432)))
                (fst (fst (sampleLine fuel line prps))))
         \<and> (\<forall>i\<in>set (fst (fst (sampleLine fuel line prps))). i + 1 < length line)
         \<and> (\<forall>l\<in>set (fst (buildLine fuel line prps)).
               \<not> flt (float_distance (fst (l_anchor l)) (snd (l_anchor l)))
                      (Finite (5033165 / 33554432)))
         \<and> (\<forall>l\<in>set (fst (buildLine fuel line prps)). \<forall>r.
               float_distance (fst (l_anchor l)) (snd (l_anchor l)) = Finite r \<longrightarrow> 15 / 100 < r)"
proof -
  have keep: "(\<lambda>j. \<not> flt (segLength line j) minLength) =
        (\<lambda>i. \<not> flt (float_distance (vec2_of (line ! i)) (vec2_of (line ! (i + 1))))
                    (Finite (5033165 / 33554432)))"
    by (simp add: segLength_distance minLength_value)
  have lab: "lineLabel line name =
        (\<lambda>i. \<lparr>l_anchor = (vec2_of (line ! i), vec2_of (line ! (i + 1))), l_text = name,
               l_type = Type_line\<rparr>)"
    by (auto simp: lineLabel_def)
  from sampleLine_labels [OF assms, of fuel line]
  have 1: "fst (buildLine fuel line prps) =
           map (\<lambda>i. \<lparr>l_anchor = (vec2_of (line ! i), vec2_of (line ! (i + 1))), l_text = name,
                      l_type = Type_line\<rparr>)
             (filter (\<lambda>i. \<not> flt (float_distance (vec2_of (line ! i)) (vec2_of (line ! (i + 1))))
                              (Finite (5033165 / 33554432)))
                (fst (fst (sampleLine fuel line prps))))"
    and 2: "\<forall>i\<in>set (fst (fst (sampleLine fuel line prps))). i + 1 < length line"
    by (simp_all add: buildLine_def Let_def keep lab)
  have 3: "\<forall>l\<in>set (fst (buildLine fuel line prps)).
               \<not> flt (float_distance (fst (l_anchor l)) (snd (l_anchor l)))
                      (Finite (5033165 / 33554432))"
    by (subst 1) auto
  have 4: "\<forall>l\<in>set (fst (buildLine fuel line prps)). \<forall>r.
               float_distance (fst (l_anchor l)) (snd (l_anchor l)) = Finite r \<longrightarrow> 15 / 100 < r"
  proof (intro ballI allI impI)
    fix l r
    assume "l \<in> set (fst (buildLine fuel line prps))"
      and "float_distance (fst (l_anchor l)) (snd (l_anchor l)) = Finite r"
    with 3 have "\<not> flt (Finite r) (Finite (5033165 / 33554432))" by metis
    then show "15 / 100 < r" by simp
  qed
  from 1 2 3 4 show ?thesis by blast
qed

theorem buildLine_labels_witness:
  "getString [''name'' \<mapsto> ''A''] ''name'' = Some ''A''
   \<and> fst (buildLine 3 [on_x_axis 0, on_x_axis (1 / 8), on_x_axis 1] [''name'' \<mapsto> ''A''])
     = [\<lparr>l_anchor = (\<lparr>x = Finite (1 / 8), y = Finite 0\<rparr>, \<lparr>x = Finite 1, y = Finite 0\<rparr>),
         l_text = ''A'', l_type = Type_line\<rparr>]"
proof -
  let ?line = "[on_x_axis 0, on_x_axis (1 / 8), on_x_axis 1]"
  have n: "getString [''name'' \<mapsto> ''A''] ''name'' = Some ''A''"
    by (simp add: getString_def)
  have s: "fst (fst (sampleLine 3 ?line [''name'' \<mapsto> ''A''])) = [0, 1]"
    by (simp add: sampleLine_def getString_def to_int_def c_div_def to_size_t_def numeral_3_eq_3)
  have d0: "float_distance (vec2_of (?line ! 0)) (vec2_of (?line ! (0 + 1))) = Finite (1 / 8)"
    using float_distance_axis [of "1 / 8" 0 "1 / 8"]
    by (simp add: on_x_axis_def vec2_of_def round32_eighth round32_64th)
  have d1: "float_distance (vec2_of (?line ! 1)) (vec2_of (?line ! (1 + 1))) = Finite (7 / 8)"
    using float_distance_axis [of 1 "1 / 8" "7 / 8"]
    by (simp add: on_x_axis_def vec2_of_def round32_7_8 round32_49_64)
  have l: "fst (buildLine 3 ?line [''name'' \<mapsto> ''A'']) =
           map (\<lambda>i. \<lparr>l_anchor = (vec2_of (?line ! i), vec2_of (?line ! (i + 1))), l_text = ''A'',
                      l_type = Type_line\<rparr>)
             (filter (\<lambda>i. \<not> flt (float_distance (vec2_of (?line ! i)) (vec2_of (?line ! (i + 1))))
                              (Finite (5033165 / 33554432))) [0, 1])"
    using buildLine_labels [OF n, of 3 ?line] by (simp only: s)
  show ?thesis
    unfolding l using n d0 d1 by (simp add: on_x_axis_def vec2_of_def)
qed

text \<open>
  Against C8 as stated: the segment from \<open>(-1/32, 0)\<close> to \<open>(15938355 / 2^27, 0)\<close> gets
  a label, and its Euclidean length \<open>20132659 / 2^27\<close> is less than \<open>0.15\<close>. The
  \<^verbatim>\<open>float\<close> difference of the two x coordinates is rounded up to the \<^verbatim>\<open>float\<close> of
  \<open>0.15\<close>.
\<close>

theorem buildLine_labels_counterexample:
  "fst (buildLine 2 [on_x_axis (- (1 / 32)), on_x_axis (15938355 / 134217728)] [''name'' \<mapsto> ''A''])
     = [\<lparr>l_anchor = (\<lparr>x = Finite (- (1 / 32)), y = Finite 0\<rparr>,
                     \<lparr>x = Finite (15938355 / 134217728), y = Finite 0\<rparr>),
         l_text = ''A'', l_type = Type_line\<rparr>]
   \<and> sqrt ((15938355 / 134217728 - (- (1 / 32)))\<^sup>2 + (0 - 0)\<^sup>2) < (15 / 100 :: real)"
proof -
  let ?line = "[on_x_axis (- (1 / 32)), on_x_axis (15938355 / 134217728)]"
  have t: "\<not> flt (segLength ?line 0) minLength"
    by (simp only: segLength_tie minLength_value flt.simps less_irrefl not_False_eq_True)
  have "lineLoop (Suc (Suc 0)) ?line ''A'' 1 0 ([], []) = (([0], [lineLabel ?line ''A'' 0]), Done)"
    using t by (simp add: to_size_t_def)
  moreover have "to_int (c_div (to_int 2) 2) = 1"
    by (simp add: to_int_def c_div_def)
  ultimately have "sampleLine 2 ?line [''name'' \<mapsto> ''A''] = (([0], [lineLabel ?line ''A'' 0]), Done)"
    by (simp add: sampleLine_def getString_def numeral_2_eq_2)
  then have "fst (buildLine 2 ?line [''name'' \<mapsto> ''A'']) = [lineLabel ?line ''A'' 0]"
    by (simp add: buildLine_def)
  moreover have "lineLabel ?line ''A'' 0 =
      \<lparr>l_anchor = (\<lparr>x = Finite (- (1 / 32)), y = Finite 0\<rparr>,
                   \<lparr>x = Finite (15938355 / 134217728), y = Finite 0\<rparr>),
        l_text = ''A'', l_type = Type_line\<rparr>"
    by (simp add: lineLabel_def on_x_axis_def vec2_of_def)
  moreover have "sqrt ((15938355 / 134217728 - (- (1 / 32)))\<^sup>2 + (0 - 0)\<^sup>2) < (15 / 100 :: real)"
    by simp
  ultimately show ?thesis by simp
qed

section \<open>Lemmas on the batch: lock, flag and mesh\<close>

lemma guarded_append:
  "guarded held es \<Longrightarrow> guarded held (es @ es') = guarded False es'"
proof (induction es arbitrary: held)
  case Nil
  then show ?case by simp
next
  case (Cons e es)
  then show ?case by (cases e) auto
qed

lemma transformID_flag:
  "m_dirtyTransform (transformID textID st b) = True
   \<and> flushes (transformID textID st b) = flushes b
   \<and> m_labels (transformID textID st b) = m_labels b"
  by (simp add: transformID_def flushes_def bind_def release_def emit_def Let_def)

lemma fold_transformID:
  "m_dirtyTransform (fold (\<lambda>(textID, st). transformID textID st) cs b) = (m_dirtyTransform b \<or> cs \<noteq> [])
   \<and> flushes (fold (\<lambda>(textID, st). transformID textID st) cs b) = flushes b"
proof (induction cs arbitrary: b)
  case Nil
  then show ?case by simp
next
  case (Cons c cs)
  then show ?case by (cases c) (simp add: transformID_flag)
qed

lemma fold_pushTransform:
  "m_dirtyTransform (fold (pushTransform pushes) ls b) = (m_dirtyTransform b \<or> (\<exists>l\<in>set ls. pushes l \<noteq> []))
   \<and> flushes (fold (pushTransform pushes) ls b) = flushes b"
proof (induction ls arbitrary: b)
  case Nil
  then show ?case by simp
next
  case (Cons l ls)
  then show ?case by (auto simp: pushTransform_def fold_transformID)
qed

lemma pushBuffer_flag:
  "flushes (pushBuffer b) = flushes b + (if m_dirtyTransform b then 1 else 0)
   \<and> m_dirtyTransform (pushBuffer b) = False"
  by (simp add: pushBuffer_def flushes_def bind_def release_def emit_def Let_def)

lemma getVerticesSize_eq:
  "getVerticesSize b =
     (int (length (fs_vertices (m_fontContext b))),
      b\<lparr>m_fontContext :=
          emit [Lock, Bind (m_fsBuffer b), Call glfonsVerticesSize, Unlock] (m_fontContext b)\<rparr>)"
  by (simp add: getVerticesSize_def bind_def release_def emit_def Let_def)

lemma glfonsVertices_fill_exact:
  "length vertices = length (fs_vertices ctx) \<Longrightarrow>
   glfonsVertices_fill ctx vertices =
     (fs_verticesOk ctx, if fs_verticesOk ctx then fs_vertices ctx else vertices)"
  by (simp add: glfonsVertices_fill_def)

lemma compile_empty:
  assumes "fs_vertices (m_fontContext b) = []"
  shows "compile b =
     (False, b\<lparr>m_fontContext :=
          emit [Lock, Bind (m_fsBuffer b), Call glfonsVerticesSize, Unlock] (m_fontContext b)\<rparr>)"
  using assms by (simp add: compile_def getVerticesSize_eq)

lemma compile_nonempty:
  assumes "fs_vertices (m_fontContext b) \<noteq> []"
  shows "compile b =
     (let ctx = emit [Lock, Bind (m_fsBuffer b), Call glfonsVerticesSize, Unlock,
                      Lock, Bind (m_fsBuffer b), Call glfonsVertices, Unlock] (m_fontContext b);
          mesh = (if fs_verticesOk (m_fontContext b)
                  then addVertices (fs_vertices (m_fontContext b)) (m_mesh b) else m_mesh b)
      in if 0 < numVertices mesh
         then (True, b\<lparr>m_fontContext := ctx, m_mesh := compileVertexBuffer mesh\<rparr>)
         else (False, b\<lparr>m_fontContext := ctx, m_mesh := mesh\<rparr>))"
proof -
  let ?ctx = "emit [Call glfonsVertices]
      (bind (m_fsBuffer b)
        (emit [Lock, Bind (m_fsBuffer b), Call glfonsVerticesSize, Unlock] (m_fontContext b)))"
  have "glfonsVertices_fill ?ctx
          (replicate (nat (int (length (fs_vertices (m_fontContext b))))) BufferVert_init)
        = (fs_verticesOk ?ctx,
           if fs_verticesOk ?ctx then fs_vertices ?ctx
           else replicate (nat (int (length (fs_vertices (m_fontContext b))))) BufferVert_init)"
    by (rule glfonsVertices_fill_exact) (simp add: bind_def emit_def)
  then show ?thesis
    using assms
    by (simp add: compile_def getVerticesSize_eq Let_def bind_def release_def emit_def)
qed

lemma compile_effect:
  "fs_vertices (m_fontContext (snd (compile b))) = fs_vertices (m_fontContext b)
   \<and> fs_verticesOk (m_fontContext (snd (compile b))) = fs_verticesOk (m_fontContext b)
   \<and> numVertices (m_mesh (snd (compile b))) =
       numVertices (m_mesh b)
         + (if fs_verticesOk (m_fontContext b) then length (fs_vertices (m_fontContext b)) else 0)
   \<and> fst (compile b) =
       (fs_vertices (m_fontContext b) \<noteq> [] \<and> 0 < numVertices (m_mesh (snd (compile b))))"
proof (cases "fs_vertices (m_fontContext b) = []")
  case True
  then show ?thesis by (simp add: compile_empty emit_def)
next
  case False
  then show ?thesis
    by (simp add: compile_nonempty emit_def Let_def addVertices_def numVertices_def
        compileVertexBuffer_def)
qed

lemma operations_guarded:
  assumes "guarded False (events (m_fontContext b))"
  shows "guarded False (events (m_fontContext (init b)))"
    and "guarded False (events (m_fontContext (snd (getVerticesSize b))))"
    and "guarded False (events (m_fontContext (snd (genTextID b))))"
    and "guarded False (events (m_fontContext (snd (rasterize txt textID b))))"
    and "guarded False (events (m_fontContext (pushBuffer b)))"
    and "guarded False (events (m_fontContext (transformID textID st b)))"
    and "guarded False (events (m_fontContext (snd (getBBox textID b))))"
  using assms
  by (simp_all add: init_def getVerticesSize_def genTextID_def rasterize_def pushBuffer_def
      transformID_def getBBox_def lock_def unlock_def bind_def
      release_def emit_def Let_def guarded_append)

lemma compile_guarded:
  assumes "guarded False (events (m_fontContext b))"
  shows "guarded False (events (m_fontContext (snd (compile b))))"
proof (cases "fs_vertices (m_fontContext b) = []")
  case True
  with assms show ?thesis by (simp add: compile_empty emit_def guarded_append)
next
  case False
  with assms show ?thesis by (simp add: compile_nonempty emit_def guarded_append Let_def)
qed

section \<open>The claims on the batch\<close>

text \<open>
  C4. A freshly constructed batch has its dirty flag clear. \<open>transformID\<close> sets the
  flag and updates no buffer. \<open>pushBuffer\<close> runs \<^verbatim>\<open>glfonsUpdateBuffer\<close> exactly once
  when the flag is set and not at all when it is clear, and leaves the flag clear; so
  does \<open>prepare\<close>, where the flag may also be set by the labels that push a transform.
  Hence after a \<open>transformID\<close> the next \<open>pushBuffer\<close> or \<open>prepare\<close> triggers exactly
  one update, and a further \<open>pushBuffer\<close>, or a further \<open>prepare\<close> in which no label
  pushes a transform, triggers none.
\<close>

theorem dirty_flag_law:
  "m_dirtyTransform (TextBatch_new fontContext fsBuffer) = False
   \<and> m_dirtyTransform (transformID textID st b) = True
   \<and> flushes (transformID textID st b) = flushes b
   \<and> flushes (pushBuffer b) = flushes b + (if m_dirtyTransform b then 1 else 0)
   \<and> m_dirtyTransform (pushBuffer b) = False
   \<and> pushBuffer (b\<lparr>m_dirtyTransform := False\<rparr>) = b\<lparr>m_dirtyTransform := False\<rparr>
   \<and> flushes (prepare pushes b) =
       flushes b + (if m_dirtyTransform b \<or> (\<exists>l\<in>set (m_labels b). pushes l \<noteq> []) then 1 else 0)
   \<and> m_dirtyTransform (prepare pushes b) = False
   \<and> flushes (pushBuffer (transformID textID st b)) = flushes b + 1
   \<and> flushes (pushBuffer (pushBuffer (transformID textID st b))) = flushes b + 1
   \<and> flushes (prepare pushes (transformID textID st b)) = flushes b + 1
   \<and> flushes (pushBuffer (prepare pushes (transformID textID st b))) = flushes b + 1
   \<and> flushes (prepare (\<lambda>l. []) (prepare pushes (transformID textID st b))) = flushes b + 1"
  by (simp add: TextBatch_new_def transformID_flag pushBuffer_flag prepare_def fold_pushTransform)
    (simp add: pushBuffer_def)

theorem dirty_flag_law_witness:
  "flushes (TextBatch_with [] True) = 0
   \<and> flushes (pushBuffer (TextBatch_with [] True)) = 0
   \<and> flushes (pushBuffer (transformID 7 \<lparr>screenPos = \<lparr>x = Finite 1, y = Finite 2\<rparr>, alpha = Finite 1, rotation = Finite 0\<rparr>
        (TextBatch_with [] True))) = 1
   \<and> flushes (pushBuffer (pushBuffer (transformID 7
        \<lparr>screenPos = \<lparr>x = Finite 1, y = Finite 2\<rparr>, alpha = Finite 1, rotation = Finite 0\<rparr> (TextBatch_with [] True)))) = 1"
proof -
  have 0: "flushes (TextBatch_with [] True) = 0"
    by (simp add: TextBatch_with_def FontContext_with_def TextBatch_new_def init_def flushes_def
        lock_def unlock_def emit_def Let_def)
  have 1: "m_dirtyTransform (TextBatch_with [] True) = False"
    by (simp add: TextBatch_with_def TextBatch_new_def init_def Let_def)
  show ?thesis
    using 0 1 dirty_flag_law [of "FontContext_with [] True" 0 7
        "\<lparr>screenPos = \<lparr>x = Finite 1, y = Finite 2\<rparr>, alpha = Finite 1, rotation = Finite 0\<rparr>" "TextBatch_with [] True" "\<lambda>l. []"]
    by (elim conjE) (simp only: simp_thms if_False add_0 add_0_right)
qed

text \<open>
  C5 fails on the code. The operations that go through \<^verbatim>\<open>bind\<close>, and \<open>init\<close> with its
  explicit \<^verbatim>\<open>lock\<close> and \<^verbatim>\<open>unlock\<close>, keep every glfons call inside the lock
  (\<open>operations_guarded\<close>, \<open>compile_guarded\<close>). The destructor does not: it calls
  \<^verbatim>\<open>glfonsBufferDelete\<close> on the bare context, with the lock not held.
\<close>

theorem destructor_call_unguarded:
  "guarded False (events (m_fontContext b)) \<Longrightarrow> \<not> guarded False (events (TextBatch_delete b))"
  by (simp add: TextBatch_delete_def emit_def guarded_append)

theorem destructor_call_unguarded_witness:
  "guarded False (events (m_fontContext (TextBatch_with [] True)))
   \<and> events (TextBatch_delete (TextBatch_with [] True))
       = [Lock, Call glfonsBufferCreate, Unlock, Call (glfonsBufferDelete 0)]
   \<and> \<not> guarded False (events (TextBatch_delete (TextBatch_with [] True)))"
proof -
  have g: "guarded False (events (m_fontContext (TextBatch_with [] True)))"
    by (simp add: TextBatch_with_def FontContext_with_def init_def TextBatch_new_def lock_def
        unlock_def emit_def Let_def)
  have e: "events (TextBatch_delete (TextBatch_with [] True))
       = [Lock, Call glfonsBufferCreate, Unlock, Call (glfonsBufferDelete 0)]"
    by (simp add: TextBatch_with_def FontContext_with_def TextBatch_delete_def init_def
        TextBatch_new_def lock_def unlock_def emit_def Let_def)
  from g e destructor_call_unguarded [OF g] show ?thesis by simp
qed

text \<open>
  C6. \<open>compile\<close> first asks the context for its vertex count, inside the lock. If the
  count is zero it returns false and the mesh is untouched. Otherwise it pulls the
  vertices, again inside the lock, into an array of exactly that many vertices; the
  array with the pulled vertices is handed to the mesh if and only if the pull reports
  success; the result is true exactly when the mesh then holds a vertex, and the mesh's
  buffer is compiled exactly then.
\<close>

theorem compile_contract:
  "fst (getVerticesSize b) = int (length (fs_vertices (m_fontContext b)))
   \<and> (fs_vertices (m_fontContext b) = [] \<longrightarrow>
      fst (compile b) = False
      \<and> m_mesh (snd (compile b)) = m_mesh b
      \<and> events (m_fontContext (snd (compile b))) =
          events (m_fontContext b) @ [Lock, Bind (m_fsBuffer b), Call glfonsVerticesSize, Unlock])
   \<and> (fs_vertices (m_fontContext b) \<noteq> [] \<longrightarrow>
      events (m_fontContext (snd (compile b))) =
          events (m_fontContext b) @ [Lock, Bind (m_fsBuffer b), Call glfonsVerticesSize, Unlock]
            @ [Lock, Bind (m_fsBuffer b), Call glfonsVertices, Unlock]
      \<and> (fs_verticesOk (m_fontContext b) \<longrightarrow>
            mesh_vertices (m_mesh (snd (compile b))) =
              mesh_vertices (m_mesh b) @ [fs_vertices (m_fontContext b)])
      \<and> (\<not> fs_verticesOk (m_fontContext b) \<longrightarrow>
            mesh_vertices (m_mesh (snd (compile b))) = mesh_vertices (m_mesh b))
      \<and> fst (compile b) = (0 < numVertices (m_mesh (snd (compile b))))
      \<and> mesh_compiles (m_mesh (snd (compile b))) =
          mesh_compiles (m_mesh b) + (if fst (compile b) then 1 else 0))"
proof (cases "fs_vertices (m_fontContext b) = []")
  case True
  then show ?thesis by (simp add: compile_empty emit_def getVerticesSize_eq)
next
  case False
  then show ?thesis
    by (simp add: compile_nonempty emit_def Let_def addVertices_def numVertices_def
        compileVertexBuffer_def getVerticesSize_eq)
qed

theorem compile_contract_witness:
  "fs_vertices (m_fontContext (TextBatch_with [] True)) = []
   \<and> fst (compile (TextBatch_with [] True)) = False
   \<and> m_mesh (snd (compile (TextBatch_with [] True))) = Mesh_init
   \<and> fs_vertices (m_fontContext (TextBatch_with [BufferVert_at 1 2, BufferVert_at 3 4] True)) \<noteq> []
   \<and> fs_verticesOk (m_fontContext (TextBatch_with [BufferVert_at 1 2, BufferVert_at 3 4] True))
   \<and> fst (compile (TextBatch_with [BufferVert_at 1 2, BufferVert_at 3 4] True)) = True
   \<and> mesh_vertices (m_mesh (snd (compile (TextBatch_with [BufferVert_at 1 2, BufferVert_at 3 4] True))))
       = [[BufferVert_at 1 2, BufferVert_at 3 4]]
   \<and> mesh_compiles (m_mesh (snd (compile (TextBatch_with [BufferVert_at 1 2, BufferVert_at 3 4] True))))
       = 1
   \<and> BufferVert_at 1 2 \<noteq> BufferVert_init
   \<and> BufferVert_at 3 4 \<noteq> BufferVert_init
   \<and> fs_vertices (m_fontContext (TextBatch_with [BufferVert_at 1 2] False)) \<noteq> []
   \<and> \<not> fs_verticesOk (m_fontContext (TextBatch_with [BufferVert_at 1 2] False))
   \<and> fst (compile (TextBatch_with [BufferVert_at 1 2] False)) = False
   \<and> mesh_vertices (m_mesh (snd (compile (TextBatch_with [BufferVert_at 1 2] False)))) = []"
proof -
  have a: "fs_vertices (m_fontContext (TextBatch_with vs ok)) = vs
      \<and> fs_verticesOk (m_fontContext (TextBatch_with vs ok)) = ok
      \<and> m_mesh (TextBatch_with vs ok) = Mesh_init" for vs ok
    by (simp add: TextBatch_with_def FontContext_with_def TextBatch_new_def init_def lock_def
        unlock_def emit_def Let_def)
  have d: "BufferVert_at 1 2 \<noteq> BufferVert_init \<and> BufferVert_at 3 4 \<noteq> BufferVert_init"
    by (simp add: BufferVert_at_def BufferVert_init_def)
  have 1: "fst (compile (TextBatch_with [] True)) = False
      \<and> m_mesh (snd (compile (TextBatch_with [] True))) = Mesh_init"
    using compile_contract [of "TextBatch_with [] True"] by (simp add: a)
  have 2: "fst (compile (TextBatch_with [BufferVert_at 1 2, BufferVert_at 3 4] True)) = True
      \<and> mesh_vertices (m_mesh (snd (compile (TextBatch_with [BufferVert_at 1 2, BufferVert_at 3 4] True))))
          = [[BufferVert_at 1 2, BufferVert_at 3 4]]
      \<and> mesh_compiles (m_mesh (snd (compile (TextBatch_with [BufferVert_at 1 2, BufferVert_at 3 4] True))))
          = 1"
    using compile_contract [of "TextBatch_with [BufferVert_at 1 2, BufferVert_at 3 4] True"]
    by (simp add: a Mesh_init_def numVertices_def)
  have 3: "fst (compile (TextBatch_with [BufferVert_at 1 2] False)) = False
      \<and> mesh_vertices (m_mesh (snd (compile (TextBatch_with [BufferVert_at 1 2] False)))) = []"
    using compile_contract [of "TextBatch_with [BufferVert_at 1 2] False"]
    by (simp add: a Mesh_init_def numVertices_def)
  from 1 2 3 d show ?thesis by (simp add: a)
qed

text \<open>
  C9, as amended. \<open>compile\<close> is total: a second call right after the first does not
  fail. Both calls get the same vertex count from the context, and when the first call
  returns true so does the second. The mesh's vertex count after the second call is
  the count after the first plus the context's vertex count when the pull succeeds;
  it is the same only when the pull fails or the context has no vertices.
\<close>

theorem compile_twice:
  "numVertices (m_mesh (snd (compile (snd (compile b))))) =
     numVertices (m_mesh (snd (compile b)))
       + (if fs_verticesOk (m_fontContext b) then length (fs_vertices (m_fontContext b)) else 0)
   \<and> fst (getVerticesSize (snd (compile b))) = fst (getVerticesSize b)
   \<and> (fst (compile b) \<longrightarrow> fst (compile (snd (compile b))))"
proof -
  note first = compile_effect [of b]
  note second = compile_effect [of "snd (compile b)"]
  have "numVertices (m_mesh (snd (compile (snd (compile b))))) =
     numVertices (m_mesh (snd (compile b)))
       + (if fs_verticesOk (m_fontContext b) then length (fs_vertices (m_fontContext b)) else 0)"
    using first second by simp
  moreover have "fst (getVerticesSize (snd (compile b))) = fst (getVerticesSize b)"
    using first by (simp add: getVerticesSize_eq)
  moreover have "fst (compile b) \<longrightarrow> fst (compile (snd (compile b)))"
    using first second by simp
  ultimately show ?thesis by blast
qed

theorem compile_twice_witness:
  "fst (compile (TextBatch_with [BufferVert_init] True)) = True
   \<and> fst (compile (snd (compile (TextBatch_with [BufferVert_init] True)))) = True
   \<and> fst (getVerticesSize (snd (compile (TextBatch_with [BufferVert_init] True)))) = 1"
proof -
  let ?b = "TextBatch_with [BufferVert_init] True"
  have a: "fs_vertices (m_fontContext ?b) = [BufferVert_init]"
    and ok: "fs_verticesOk (m_fontContext ?b)"
    by (simp_all add: TextBatch_with_def FontContext_with_def TextBatch_new_def init_def lock_def
        unlock_def emit_def Let_def)
  have b: "fst (compile ?b) = True"
    using a ok compile_effect [of ?b] by simp
  have c: "fst (getVerticesSize ?b) = 1"
    using a by (simp add: getVerticesSize_eq)
  from b c compile_twice [of ?b] show ?thesis by simp
qed

text \<open>
  Against C9 as stated: with one vertex in the context and a successful pull, the mesh
  holds one vertex after the first \<open>compile\<close> and two after the second.
\<close>

theorem compile_twice_counterexample:
  "numVertices (m_mesh (snd (compile (TextBatch_with [BufferVert_init] True)))) = 1
   \<and> numVertices (m_mesh (snd (compile (snd (compile (TextBatch_with [BufferVert_init] True)))))) = 2"
proof -
  let ?b = "TextBatch_with [BufferVert_init] True"
  have a: "fs_vertices (m_fontContext ?b) = [BufferVert_init]"
    and ok: "fs_verticesOk (m_fontContext ?b)"
    and m: "numVertices (m_mesh ?b) = 0"
    by (simp_all add: TextBatch_with_def FontContext_with_def TextBatch_new_def init_def lock_def
        unlock_def emit_def Let_def Mesh_init_def numVertices_def)
  from a ok m compile_effect [of ?b] compile_effect [of "snd (compile ?b)"]
  show ?thesis by simp
qed

text \<open>
  C10. When the context has vertices and the pull reports failure, \<open>compile\<close> has tried
  the pull, the mesh keeps exactly the vertex arrays it had, and the result is decided
  by the vertex count the mesh already had: with vertices from an earlier \<open>compile\<close>
  the buffer is compiled again and the result is true, without them the mesh is
  unchanged and the result is false.
\<close>

theorem compile_pull_failure:
  assumes "fs_vertices (m_fontContext b) \<noteq> []" and "\<not> fs_verticesOk (m_fontContext b)"
  shows "mesh_vertices (m_mesh (snd (compile b))) = mesh_vertices (m_mesh b)
         \<and> fst (compile b) = (0 < numVertices (m_mesh b))
         \<and> m_mesh (snd (compile b)) =
             (if 0 < numVertices (m_mesh b) then compileVertexBuffer (m_mesh b) else m_mesh b)
         \<and> Call glfonsVertices \<in> set (events (m_fontContext (snd (compile b))))"
  using assms
  by (simp add: compile_nonempty emit_def Let_def compileVertexBuffer_def)

theorem compile_pull_failure_witness:
  "fs_vertices (m_fontContext ((TextBatch_with [BufferVert_init] False)
       \<lparr>m_mesh := addVertices [BufferVert_init] Mesh_init\<rparr>)) \<noteq> []
   \<and> \<not> fs_verticesOk (m_fontContext ((TextBatch_with [BufferVert_init] False)
       \<lparr>m_mesh := addVertices [BufferVert_init] Mesh_init\<rparr>))
   \<and> fst (compile ((TextBatch_with [BufferVert_init] False)
       \<lparr>m_mesh := addVertices [BufferVert_init] Mesh_init\<rparr>)) = True
   \<and> m_mesh (snd (compile ((TextBatch_with [BufferVert_init] False)
       \<lparr>m_mesh := addVertices [BufferVert_init] Mesh_init\<rparr>)))
     = \<lparr>mesh_vertices = [[BufferVert_init]], mesh_compiles = 1\<rparr>"
proof -
  let ?b = "(TextBatch_with [BufferVert_init] False)\<lparr>m_mesh := addVertices [BufferVert_init] Mesh_init\<rparr>"
  have a: "fs_vertices (m_fontContext ?b) \<noteq> []" and b: "\<not> fs_verticesOk (m_fontContext ?b)"
    by (simp_all add: TextBatch_with_def FontContext_with_def TextBatch_new_def init_def lock_def
        unlock_def emit_def Let_def)
  from a b compile_pull_failure [OF a b] show ?thesis
    by (simp add: addVertices_def Mesh_init_def numVertices_def compileVertexBuffer_def)
qed

end
